theory Spec2Isabelle
  imports Main "HOL-Library.Multiset"
begin

section \<open>Values shared by the server variants\<close>

text \<open>
  The repository holds five variants of one Express server. They are referred to by
  file: \<open>part_000\<close> and \<open>part_001\<close> (guests with flight legs, a timer
  that refreshes leg statuses), \<open>part_002\<close> and the first half of
  \<open>server.js\<close> (one flight per guest, statuses refreshed on every list read,
  automatic car assignment), and the second half of \<open>server.js\<close> (plain CRUD
  with 404 answers and a flight-status endpoint).

  A status is the string stored in the \<open>status\<close> column.
\<close>

abbreviation OnTime :: string where "OnTime \<equiv> ''On Time''"
abbreviation Delayed :: string where "Delayed \<equiv> ''Delayed''"
abbreviation Cancelled :: string where "Cancelled \<equiv> ''Cancelled''"
abbreviation Landed :: string where "Landed \<equiv> ''Landed''"

subsection \<open>Dates\<close>

text \<open>
  An instant is a count of milliseconds since the epoch, and a calendar date
  \<open>YYYY-MM-DD\<close> is its day number. A JavaScript Date is its time value, or
  \<open>None\<close> for an Invalid Date; a time value lies within 100 000 000 days of the
  epoch.

  A TIMESTAMP column holds the reading of a clock with no time zone. It is represented by
  the milliseconds that reading lies from 1970-01-01 00:00:00 on the same clock.
  PostgreSQL computes \<open>DATE(eta)\<close> on the reading. The driver hands the column
  to the handler as a Date built in the time zone of the process: \<open>utc\<close> takes
  the reading to the instant it names there (it is the identity when the process runs in
  UTC), and the Date is invalid when that instant is none a Date can hold. PostgreSQL
  stores years up to 294276 where a Date ends in 275760, and the readings
  \<open>infinity\<close> and \<open>-infinity\<close> give an Invalid Date as well.
\<close>

definition ms_per_day :: int where
  "ms_per_day = 86400000"

definition max_time :: int where
  "max_time = 8640000000000000"

type_synonym zone = "int \<Rightarrow> int"

definition time_clip :: "int \<Rightarrow> int option" where
  "time_clip t = (if - max_time \<le> t \<and> t \<le> max_time then Some t else None)"

definition driver_date :: "zone \<Rightarrow> int \<Rightarrow> int option" where
  \<comment> \<open>the Date of a TIMESTAMP column that is not null\<close>
  "driver_date utc w = time_clip (utc w)"

definition column_date :: "zone \<Rightarrow> int option \<Rightarrow> int option" where
  \<comment> \<open>\<open>new Date(v)\<close> of a TIMESTAMP column: a copy of its Date, and the epoch for null\<close>
  "column_date utc v = (case v of None \<Rightarrow> Some 0 | Some w \<Rightarrow> driver_date utc w)"

definition date_less :: "int option \<Rightarrow> int option \<Rightarrow> bool" where
  \<comment> \<open>\<open>a < b\<close> on two Dates, which is false when either is invalid\<close>
  "date_less a b =
     (case a of None \<Rightarrow> False
      | Some x \<Rightarrow> (case b of None \<Rightarrow> False | Some y \<Rightarrow> x < y))"

definition sql_date :: "int \<Rightarrow> int" where
  \<comment> \<open>\<open>DATE(eta)\<close>, as a day number\<close>
  "sql_date w = w div ms_per_day"

definition utc_day :: "int \<Rightarrow> int" where
  \<comment> \<open>the date in \<open>toISOString()\<close> of a valid Date, as a day number\<close>
  "utc_day t = t div ms_per_day"

datatype thrown = AxiosError | TypeError | RangeError | DatabaseError

definition iso_date :: "int option \<Rightarrow> thrown + int" where
  \<comment> \<open>\<open>d.toISOString().split('T')[0]\<close>, as a day number; \<open>toISOString\<close> throws a
      RangeError on an Invalid Date\<close>
  "iso_date d = (case d of None \<Rightarrow> Inl RangeError | Some t \<Rightarrow> Inr (utc_day t))"

subsection \<open>Strings\<close>

definition js_string :: "string option \<Rightarrow> string" where
  \<comment> \<open>a nullable column inside a template literal\<close>
  "js_string v = (case v of None \<Rightarrow> ''null'' | Some s \<Rightarrow> s)"

definition truthy :: "string option \<Rightarrow> bool" where
  \<comment> \<open>JavaScript truthiness of a string that may be null or undefined\<close>
  "truthy v = (case v of None \<Rightarrow> False | Some s \<Rightarrow> s \<noteq> [])"

subsection \<open>The flight-data provider\<close>

text \<open>
  One element of the provider's \<open>data\<close> array, with the fields the variants read.
  The status, the delay and the two objects are \<open>None\<close> when null or absent. A
  time of arrival is a string or null in the provider's JSON, and an object may leave it
  out: it is absent (\<open>undefined\<close>), null, the empty string, a string that Date
  parses (with the time value it names), or another string.
\<close>

datatype time_field = Absent | Null | Empty | Stamp int | Unparsed

definition field_truthy :: "time_field \<Rightarrow> bool" where
  "field_truthy v = (case v of Stamp t \<Rightarrow> True | Unparsed \<Rightarrow> True | _ \<Rightarrow> False)"

definition field_date :: "time_field \<Rightarrow> int option" where
  \<comment> \<open>\<open>new Date(v)\<close>: the epoch for null, an Invalid Date for \<open>undefined\<close> and
      for a string that names no time\<close>
  "field_date v = (case v of Null \<Rightarrow> Some 0 | Stamp t \<Rightarrow> time_clip t | _ \<Rightarrow> None)"

record departure_obj =
  delay :: "int option"

record arrival_obj =
  estimated :: time_field
  scheduled :: time_field

record flight_obj =
  flight_status :: "string option"
  departure :: "departure_obj option"
  arrival :: "arrival_obj option"

record request =
  access_key :: "string option"
  flight_iata :: string
  flight_date :: "int option"
  limit :: "nat option"

text \<open>
  What \<open>axios.get\<close> does with a request: it rejects (a network failure, a
  timeout, an HTTP error status), or it resolves with a response whose \<open>data\<close>
  is null or undefined (\<open>NoBody\<close>), is a value whose own \<open>data\<close> is
  falsy (\<open>NoList\<close>), or is an object holding the array of flights. Within one
  run the provider answers equal requests equally. A function that calls the provider
  returns, beside its result, the requests it sent.
\<close>

datatype response_data = NoBody | NoList | FlightList "flight_obj list"

datatype axios_result = Rejected | Resolved response_data

type_synonym provider = "request \<Rightarrow> axios_result"

section \<open>fetchFlightStatus (part_000 lines 67-93, part_001 lines 78-110)\<close>

definition delay_positive :: "departure_obj option \<Rightarrow> bool" where
  \<comment> \<open>\<open>flight.departure?.delay > 0\<close>\<close>
  "delay_positive d =
     (case d of None \<Rightarrow> False
      | Some dep \<Rightarrow> (case delay dep of None \<Rightarrow> False | Some n \<Rightarrow> n > 0))"

definition status_of_flight :: "flight_obj \<Rightarrow> string" where
  "status_of_flight entry =
     (if flight_status entry = Some ''cancelled'' then Cancelled
      else if flight_status entry = Some ''landed'' then Landed
      else if flight_status entry = Some ''active'' then OnTime
      else if flight_status entry = Some ''scheduled'' \<and> delay_positive (departure entry)
        then Delayed
      else OnTime)"

definition fetch_try :: "provider \<Rightarrow> request \<Rightarrow> (thrown + string option) \<times> request list" where
  \<comment> \<open>the body of the \<open>try\<close>: \<open>Inl\<close> is a throw, \<open>Inr None\<close> is \<open>return null\<close>\<close>
  "fetch_try axios_get req =
     (case axios_get req of
        Rejected \<Rightarrow> (Inl AxiosError, [req])
      | Resolved d \<Rightarrow>
          (case d of
             FlightList (entry # rest) \<Rightarrow> (Inr (Some (status_of_flight entry)), [req])
           | _ \<Rightarrow> (Inr None, [req])))"

definition fetch_request :: "string option \<Rightarrow> string \<Rightarrow> string option \<Rightarrow> int \<Rightarrow> request" where
  "fetch_request api_key flightNumber airline date =
     \<lparr>access_key = api_key, flight_iata = js_string airline @ flightNumber,
      flight_date = Some date, limit = None\<rparr>"

type_synonym resolver =
  "string \<Rightarrow> string option \<Rightarrow> int \<Rightarrow> (thrown + string option) \<times> request list"

definition fetchFlightStatus_part000 :: "string option \<Rightarrow> provider \<Rightarrow> resolver" where
  "fetchFlightStatus_part000 api_key axios_get flightNumber airline date =
     (case fetch_try axios_get (fetch_request api_key flightNumber airline date) of
        (Inl error, sent) \<Rightarrow> (Inr None, sent)
      | (Inr r, sent) \<Rightarrow> (Inr r, sent))"

definition fetchFlightStatus_part001 :: "string option \<Rightarrow> provider \<Rightarrow> resolver" where
  "fetchFlightStatus_part001 api_key axios_get flightNumber airline date =
     (if \<not> truthy api_key then (Inr None, [])
      else (case fetch_try axios_get (fetch_request api_key flightNumber airline date) of
              (Inl error, sent) \<Rightarrow> (Inr None, sent)
            | (Inr r, sent) \<Rightarrow> (Inr r, sent)))"

section \<open>updateFlightStatuses (part_000 lines 95-118, part_001 lines 112-145)\<close>

text \<open>
  A row of \<open>flight_legs\<close>. Every write path of the server stores
  \<open>leg.status || 'On Time'\<close>, so the status of a stored leg is a string.
\<close>

record leg_row =
  leg_id :: int
  leg_guest_id :: int
  flight_number :: string
  leg_airline :: "string option"
  leg_origin :: string
  leg_destination :: string
  leg_eta :: int
  leg_status :: string
  leg_order :: nat

definition terminal :: "string \<Rightarrow> bool" where
  "terminal s = (s = Landed \<or> s = Cancelled)"

definition select_open_legs :: "leg_row list \<Rightarrow> leg_row list" where
  \<comment> \<open>\<open>SELECT ... FROM flight_legs fl WHERE fl.status NOT IN ('Landed', 'Cancelled')\<close>\<close>
  "select_open_legs table = filter (\<lambda>fl. \<not> terminal (leg_status fl)) table"

definition select_open_legs_today :: "int \<Rightarrow> leg_row list \<Rightarrow> leg_row list" where
  \<comment> \<open>part_001 adds \<open>AND DATE(fl.eta) = $1\<close> with today's date\<close>
  "select_open_legs_today today table =
     filter (\<lambda>fl. \<not> terminal (leg_status fl) \<and> sql_date (leg_eta fl) = today) table"

definition update_leg_status :: "string \<Rightarrow> int \<Rightarrow> leg_row list \<Rightarrow> leg_row list" where
  \<comment> \<open>\<open>UPDATE flight_legs SET status = $1 WHERE id = $2\<close>\<close>
  "update_leg_status s i table =
     map (\<lambda>fl. if leg_id fl = i then fl\<lparr>leg_status := s\<rparr> else fl) table"

text \<open>
  The result of a pass: the table after it, the requests the resolver sent to the provider
  (each with the id of the leg it was sent for), and what the loop threw, if anything. A
  table is given in the order in which a SELECT returns its rows. The store is taken to
  accept every statement of the pass.
\<close>

record pass_result =
  table_after :: "leg_row list"
  lookups :: "(int \<times> request) list"
  raised :: "thrown option"

text \<open>
  The loop over the rows (part_000 lines 104-114, part_001 lines 127-138), the same in both
  but for the \<open>fetchFlightStatus\<close> it calls. A throw ends it.
\<close>

fun status_loop :: "resolver \<Rightarrow> zone \<Rightarrow> leg_row list \<Rightarrow> leg_row list \<Rightarrow> pass_result" where
  "status_loop fetchFlightStatus utc [] table =
     \<lparr>table_after = table, lookups = [], raised = None\<rparr>"
| "status_loop fetchFlightStatus utc (leg # rows) table =
     (case iso_date (driver_date utc (leg_eta leg)) of
        Inl e \<Rightarrow> \<lparr>table_after = table, lookups = [], raised = Some e\<rparr>
      | Inr date \<Rightarrow>
          (case fetchFlightStatus (flight_number leg) (leg_airline leg) date of
             (Inl e, sent) \<Rightarrow>
               \<lparr>table_after = table, lookups = map (Pair (leg_id leg)) sent, raised = Some e\<rparr>
           | (Inr flightStatus, sent) \<Rightarrow>
               (let table' = (case flightStatus of
                                None \<Rightarrow> table
                              | Some s \<Rightarrow> update_leg_status s (leg_id leg) table);
                    r = status_loop fetchFlightStatus utc rows table'
                in r\<lparr>lookups := map (Pair (leg_id leg)) sent @ lookups r\<rparr>)))"

definition updateFlightStatuses_part000 ::
  "string option \<Rightarrow> provider \<Rightarrow> zone \<Rightarrow> leg_row list \<Rightarrow> pass_result" where
  \<comment> \<open>\<open>try\<close> with \<open>finally\<close> alone: what the loop throws leaves the function\<close>
  "updateFlightStatuses_part000 api_key axios_get utc table =
     status_loop (fetchFlightStatus_part000 api_key axios_get) utc (select_open_legs table) table"

definition updateFlightStatuses_part001 ::
  "string option \<Rightarrow> provider \<Rightarrow> zone \<Rightarrow> int \<Rightarrow> leg_row list \<Rightarrow> pass_result" where
  \<comment> \<open>\<open>today\<close> is the date of \<open>new Date()\<close>, a valid Date with the time value
      \<open>now\<close>; the \<open>catch\<close> logs what the loop throws\<close>
  "updateFlightStatuses_part001 api_key axios_get utc now table =
     (let today = utc_day now
      in (status_loop (fetchFlightStatus_part001 api_key axios_get) utc
            (select_open_legs_today today table) table)\<lparr>raised := None\<rparr>)"

section \<open>The guests table of the one-flight variants\<close>

text \<open>
  A row of \<open>guests\<close> in part_002 and in both halves of server.js, with the columns
  the handlers below read or write. A column is an option where some variant's schema
  lets it be null. \<open>id\<close> is a serial, so it grows in creation order.
\<close>

record guest_row =
  id :: int
  name :: string
  flight :: string
  airline :: "string option"
  airline_name :: "string option"
  origin :: "string option"
  eta :: "int option"
  status :: "string option"
  car_assigned :: "int option"

section \<open>GET /api/guests of part_002 (lines 42-105): the refresh on a list read\<close>

definition arrival_status :: "flight_obj \<Rightarrow> thrown + string" where
  \<comment> \<open>lines 60-75; \<open>flight.arrival.estimated\<close> throws when there is no \<open>arrival\<close>\<close>
  "arrival_status entry =
     (if flight_status entry = Some ''cancelled'' then Inr Cancelled
      else if flight_status entry = Some ''landed'' then Inr Landed
      else if flight_status entry = Some ''active'' \<or> flight_status entry = Some ''scheduled''
        then (case arrival entry of
                None \<Rightarrow> Inl TypeError
              | Some arr \<Rightarrow>
                  (let estimatedArrival =
                         field_date (if field_truthy (estimated arr) then estimated arr
                                     else scheduled arr);
                       scheduledArrival = field_date (scheduled arr)
                   in Inr (if date_less scheduledArrival estimatedArrival then Delayed
                           else OnTime)))
      else Inr OnTime)"

definition guest_request :: "string option \<Rightarrow> guest_row \<Rightarrow> request" where
  "guest_request api_key guest =
     \<lparr>access_key = api_key, flight_iata = js_string (airline guest) @ flight guest,
      flight_date = None, limit = None\<rparr>"

definition refresh_try_part002 ::
  "string option \<Rightarrow> provider \<Rightarrow> zone \<Rightarrow> int \<Rightarrow> guest_row \<Rightarrow> thrown + string option" where
  \<comment> \<open>the body of the inner \<open>try\<close>: \<open>Inr (Some s)\<close> writes status \<open>s\<close>;
      \<open>now\<close> is the instant of \<open>new Date()\<close>\<close>
  "refresh_try_part002 api_key axios_get utc now guest =
     (case axios_get (guest_request api_key guest) of
        Rejected \<Rightarrow> Inl AxiosError
      | Resolved d \<Rightarrow>
          (case d of
             NoBody \<Rightarrow> Inl TypeError
           | NoList \<Rightarrow> Inr None
           | FlightList [] \<Rightarrow> Inr None
           | FlightList (first # rest) \<Rightarrow>
               (case arrival_status first of
                  Inl e \<Rightarrow> Inl e
                | Inr newStatus \<Rightarrow>
                    Inr (Some (if date_less (column_date utc (eta guest)) (Some now)
                                  \<and> newStatus = OnTime
                               then Landed else newStatus)))))"

definition refresh_guest_part002 ::
  "string option \<Rightarrow> provider \<Rightarrow> zone \<Rightarrow> int \<Rightarrow> guest_row \<Rightarrow> guest_row" where
  \<comment> \<open>one turn of the loop over the rows; the same status is written to the store\<close>
  "refresh_guest_part002 api_key axios_get utc now guest =
     (if truthy (Some (flight guest)) \<and> truthy (airline guest) \<and> truthy (origin guest) then
        (case refresh_try_part002 api_key axios_get utc now guest of
           Inr None \<Rightarrow> guest
         | Inr (Some newStatus) \<Rightarrow> guest\<lparr>status := Some newStatus\<rparr>
         | Inl apiError \<Rightarrow>
             if date_less (column_date utc (eta guest)) (Some now) \<and> status guest = Some OnTime
             then guest\<lparr>status := Some Landed\<rparr> else guest)
      else guest)"

section \<open>GET /api/guests of the first half of server.js (lines 43-94): the status map\<close>

definition lower_char :: "char \<Rightarrow> char" where
  "lower_char c =
     (case map_of (zip ''ABCDEFGHIJKLMNOPQRSTUVWXYZ'' ''abcdefghijklmnopqrstuvwxyz'') c of
        None \<Rightarrow> c
      | Some l \<Rightarrow> l)"

definition toLowerCase :: "string \<Rightarrow> string" where
  \<comment> \<open>on the letters A to Z\<close>
  "toLowerCase s = map lower_char s"

definition object_prototype_keys :: "string list" where
  "object_prototype_keys =
     [''constructor'', ''__defineGetter__'', ''__defineSetter__'', ''hasOwnProperty'',
      ''__lookupGetter__'', ''__lookupSetter__'', ''isPrototypeOf'', ''propertyIsEnumerable'',
      ''toString'', ''valueOf'', ''__proto__'', ''toLocaleString'']"

text \<open>
  The value of \<open>newStatus\<close>: a string, or the property of \<open>Object.prototype\<close>
  that \<open>statusMap[apiStatus]\<close> reads when \<open>apiStatus\<close> names one.
\<close>

datatype js_value = Text string | Inherited string

definition statusMap :: "(string \<times> string) list" where
  "statusMap =
     [(''cancelled'', Cancelled), (''landed'', Landed), (''delayed'', Delayed),
      (''active'', OnTime), (''scheduled'', OnTime)]"

definition mapped_status :: "flight_obj \<Rightarrow> js_value" where
  "mapped_status entry =
     (case flight_status entry of
        None \<Rightarrow> Text OnTime
      | Some v \<Rightarrow>
          (let apiStatus = toLowerCase v
           in case map_of statusMap apiStatus of
                Some s \<Rightarrow> Text s
              | None \<Rightarrow>
                  if apiStatus \<in> set object_prototype_keys then Inherited apiStatus
                  else Text OnTime))"

definition refresh_status_server1 ::
  "string option \<Rightarrow> provider \<Rightarrow> guest_row \<Rightarrow> js_value option" where
  \<comment> \<open>one turn of the loop over the rows: the status written to the row, if any; the
      \<open>catch\<close> keeps the status\<close>
  "refresh_status_server1 api_key axios_get guest =
     (if truthy (Some (flight guest)) \<and> truthy (airline guest) \<and> truthy (origin guest) then
        (case axios_get (guest_request api_key guest) of
           Rejected \<Rightarrow> None
         | Resolved d \<Rightarrow>
             (case d of
                FlightList (entry # rest) \<Rightarrow> Some (mapped_status entry)
              | _ \<Rightarrow> None))
      else None)"

section \<open>POST /api/assign-cars (server.js lines 140-170, part_002 lines 148-177)\<close>

subsection \<open>The object flightGroups\<close>

text \<open>
  \<open>flightGroups\<close> is a plain object used as a dictionary from a flight to an array of
  guests. Its own properties are kept in insertion order. Two things of JavaScript show:
  a key that names a property of \<open>Object.prototype\<close> (one of
  \<open>object_prototype_keys\<close>) reads as that inherited value,
  which is truthy and has no \<open>push\<close>, so the handler throws a TypeError; and
  \<open>for ... in\<close> visits the keys that are array indices first, in ascending numeric
  order, and the other keys after them in insertion order.
\<close>

definition digit :: "char \<Rightarrow> bool" where
  "digit c = (48 \<le> (of_char c :: nat) \<and> (of_char c :: nat) \<le> 57)"

fun decimal :: "int \<Rightarrow> string \<Rightarrow> int" where
  "decimal acc [] = acc"
| "decimal acc (c # cs) = decimal (10 * acc + (of_char c - 48)) cs"

definition array_index :: "string \<Rightarrow> int option" where
  \<comment> \<open>a canonical numeric string below \<open>2^32 - 1\<close>\<close>
  "array_index k =
     (if k \<noteq> [] \<and> list_all digit k \<and> (k = ''0'' \<or> hd k \<noteq> CHR ''0'')
         \<and> decimal 0 k < 4294967295
      then Some (decimal 0 k) else None)"

definition index_key :: "string \<times> 'a \<Rightarrow> int" where
  "index_key p = (case array_index (fst p) of None \<Rightarrow> 0 | Some n \<Rightarrow> n)"

definition for_in_order :: "(string \<times> 'a) list \<Rightarrow> (string \<times> 'a) list" where
  "for_in_order obj =
     sort_key index_key (filter (\<lambda>p. array_index (fst p) \<noteq> None) obj)
     @ filter (\<lambda>p. array_index (fst p) = None) obj"

type_synonym groups = "(string \<times> guest_row list) list"

fun push_guest :: "guest_row \<Rightarrow> groups \<Rightarrow> groups" where
  \<comment> \<open>\<open>if (!flightGroups[k]) flightGroups[k] = []; flightGroups[k].push(guest)\<close>\<close>
  "push_guest guest [] = [(flight guest, [guest])]"
| "push_guest guest ((k, members) # others) =
     (if k = flight guest then (k, members @ [guest]) # others
      else (k, members) # push_guest guest others)"

fun group_guests :: "guest_row list \<Rightarrow> groups \<Rightarrow> thrown + groups" where
  \<comment> \<open>the \<open>forEach\<close> over the rows\<close>
  "group_guests [] flightGroups = Inr flightGroups"
| "group_guests (guest # guests) flightGroups =
     (if flight guest \<in> set object_prototype_keys then Inl TypeError
      else group_guests guests (push_guest guest flightGroups))"

subsection \<open>Numbering the cars\<close>

definition capacity :: nat where
  \<comment> \<open>the literal 5 of \<open>i += 5\<close> and \<open>slice(i, i + 5)\<close>\<close>
  "capacity = 5"

definition slice :: "nat \<Rightarrow> nat \<Rightarrow> 'a list \<Rightarrow> 'a list" where
  "slice b e xs = take (e - b) (drop b xs)"

text \<open>
  A car is one turn of the inner loop: the value of \<open>carId\<close> and the guests of
  \<open>carGuests\<close>, each of which gets \<open>car_assigned = carId\<close>. The store is taken
  to accept every update.
\<close>

type_synonym car = "nat \<times> guest_row list"

function chunk_loop :: "guest_row list \<Rightarrow> nat \<Rightarrow> nat \<Rightarrow> car list \<times> nat" where
  "chunk_loop flightGuests i carId =
     (if i < length flightGuests then
        (let carGuests = slice i (i + capacity) flightGuests;
             (cars, carId') = chunk_loop flightGuests (i + capacity) (carId + 1)
         in ((carId, carGuests) # cars, carId'))
      else ([], carId))"
  by pat_completeness auto
termination
  by (relation "measure (\<lambda>(flightGuests, i, carId). length flightGuests - i)")
     (auto simp: capacity_def)

declare chunk_loop.simps [simp del]

fun group_loop :: "groups \<Rightarrow> nat \<Rightarrow> car list" where
  \<comment> \<open>the \<open>for ... in\<close> over the groups, given in the order it visits them\<close>
  "group_loop [] carId = []"
| "group_loop ((k, flightGuests) # others) carId =
     (let (cars, carId') = chunk_loop flightGuests 0 carId
      in cars @ group_loop others carId')"

definition assign_cars :: "guest_row list \<Rightarrow> thrown + car list" where
  \<comment> \<open>the argument is the rows of \<open>SELECT * FROM guests ORDER BY flight, eta\<close>\<close>
  "assign_cars guests =
     (case group_guests guests [] of
        Inl e \<Rightarrow> Inl e
      | Inr flightGroups \<Rightarrow> Inr (group_loop (for_in_order flightGroups) 1))"

text \<open>
  The groups written out: the flights in the order of their first row, each with its rows
  in the order of the rows. \<open>members_of\<close> reads a group of \<open>flightGroups\<close>.
\<close>

fun first_occurrences :: "'a list \<Rightarrow> 'a list" where
  "first_occurrences [] = []"
| "first_occurrences (x # xs) = x # filter (\<lambda>y. y \<noteq> x) (first_occurrences xs)"

definition groups_of_rows :: "guest_row list \<Rightarrow> groups" where
  "groups_of_rows rows =
     map (\<lambda>k. (k, filter (\<lambda>g. flight g = k) rows)) (first_occurrences (map flight rows))"

definition members_of :: "groups \<Rightarrow> string \<Rightarrow> guest_row list" where
  "members_of fg k = (case map_of fg k of None \<Rightarrow> [] | Some m \<Rightarrow> m)"

text \<open>
  The chunks of a group written out, in the words of the specification: consecutive chunks
  of at most \<open>n\<close> guests, in the order of the group. It is what the inner loop is
  compared with.
\<close>

function spec_chunks :: "nat \<Rightarrow> 'a list \<Rightarrow> 'a list list" where
  "spec_chunks n xs =
     (if n = 0 \<or> xs = [] then [] else take n xs # spec_chunks n (drop n xs))"
  by pat_completeness auto
termination
  by (relation "measure (\<lambda>(n, xs). length xs)") auto

declare spec_chunks.simps [simp del]

text \<open>
  What the query promises about its rows: they are the rows of the table, ordered by
  \<open>flight\<close> and then by \<open>eta\<close> (a null \<open>eta\<close> last). Strings are compared
  character by character. Rows that agree on both columns may come in any order.
\<close>

fun string_less :: "string \<Rightarrow> string \<Rightarrow> bool" where
  "string_less [] [] = False"
| "string_less [] (d # ds) = True"
| "string_less (c # cs) [] = False"
| "string_less (c # cs) (d # ds) =
     ((of_char c :: nat) < of_char d \<or> (c = d \<and> string_less cs ds))"

definition eta_le :: "int option \<Rightarrow> int option \<Rightarrow> bool" where
  "eta_le a b =
     (case b of None \<Rightarrow> True | Some y \<Rightarrow> (case a of None \<Rightarrow> False | Some x \<Rightarrow> x \<le> y))"

definition flight_eta_le :: "guest_row \<Rightarrow> guest_row \<Rightarrow> bool" where
  "flight_eta_le g h =
     (string_less (flight g) (flight h) \<or> (flight g = flight h \<and> eta_le (eta g) (eta h)))"

definition query_result :: "guest_row list \<Rightarrow> guest_row list \<Rightarrow> bool" where
  "query_result table rows = (mset rows = mset table \<and> sorted_wrt flight_eta_le rows)"

section \<open>HTTP replies\<close>

datatype body =
  Success
| Message string
| ErrorMessage string
| ErrorOf thrown
| GuestJson guest_row
| StatusJson string

type_synonym reply = "nat \<times> body"

section \<open>PUT /api/guests/:id of part_000 (lines 186-218): replacing the legs of a guest\<close>

text \<open>
  A row of \<open>guests\<close> in the variants with legs, a leg as the request body gives it
  (a field the body leaves out is \<open>None\<close>), and the two tables.
\<close>

record guest_entry =
  g_id :: int
  g_name :: string
  final_destination :: "string option"
  final_eta :: "int option"
  g_car_assigned :: "int option"

record leg_input =
  in_flight :: "string option"
  in_airline :: "string option"
  in_origin :: "string option"
  in_destination :: "string option"
  in_eta :: "int option"
  in_status :: "string option"

record db =
  guests :: "guest_entry list"
  flight_legs :: "leg_row list"

text \<open>
  A client session on the store: the committed tables, which every other session reads;
  the session's own copy while a transaction is open; and the sequence of leg ids, which
  no rollback resets.
\<close>

record session =
  committed :: db
  in_tx :: "db option"
  leg_seq :: int

datatype stmt =
  Begin
| UpdateGuest int "string option" "string option" "int option"
| DeleteLegs int
| InsertLeg int leg_input nat
| Commit
| Rollback

definition update_guest_entry ::
  "int \<Rightarrow> string option \<Rightarrow> string option \<Rightarrow> int option \<Rightarrow> db \<Rightarrow> thrown + db" where
  \<comment> \<open>\<open>UPDATE guests SET name = $1, final_destination = $2, final_eta = $3 WHERE id = $4\<close>;
      \<open>name\<close> is NOT NULL\<close>
  "update_guest_entry gid nm dest t d =
     (if list_ex (\<lambda>g. g_id g = gid) (guests d) then
        (case nm of
           None \<Rightarrow> Inl DatabaseError
         | Some n \<Rightarrow>
             Inr (d\<lparr>guests :=
                      map (\<lambda>g. if g_id g = gid
                                then g\<lparr>g_name := n, final_destination := dest, final_eta := t\<rparr>
                                else g) (guests d)\<rparr>))
      else Inr d)"

definition delete_legs :: "int \<Rightarrow> db \<Rightarrow> thrown + db" where
  \<comment> \<open>\<open>DELETE FROM flight_legs WHERE guest_id = $1\<close>\<close>
  "delete_legs gid d =
     Inr (d\<lparr>flight_legs := filter (\<lambda>fl. leg_guest_id fl \<noteq> gid) (flight_legs d)\<rparr>)"

definition status_or_default :: "string option \<Rightarrow> string" where
  \<comment> \<open>\<open>leg.status || 'On Time'\<close>\<close>
  "status_or_default v = (if truthy v then (case v of Some s \<Rightarrow> s | None \<Rightarrow> OnTime) else OnTime)"

definition insert_leg :: "int \<Rightarrow> int \<Rightarrow> leg_input \<Rightarrow> nat \<Rightarrow> db \<Rightarrow> thrown + db" where
  \<comment> \<open>\<open>INSERT INTO flight_legs (...) VALUES (...)\<close>: \<open>guest_id\<close> references
      \<open>guests(id)\<close>; \<open>flight_number\<close>, \<open>origin\<close>, \<open>destination\<close> and
      \<open>eta\<close> are NOT NULL\<close>
  "insert_leg new_id gid leg i d =
     (case (in_flight leg, in_origin leg, in_destination leg, in_eta leg) of
        (Some f, Some orig, Some dest, Some t) \<Rightarrow>
          (if list_ex (\<lambda>g. g_id g = gid) (guests d) then
             Inr (d\<lparr>flight_legs := flight_legs d @
                    [\<lparr>leg_id = new_id, leg_guest_id = gid, flight_number = f,
                      leg_airline = in_airline leg, leg_origin = orig, leg_destination = dest,
                      leg_eta = t, leg_status = status_or_default (in_status leg),
                      leg_order = i\<rparr>]\<rparr>)
           else Inl DatabaseError)
      | _ \<Rightarrow> Inl DatabaseError)"

definition write_db :: "(db \<Rightarrow> thrown + db) \<Rightarrow> session \<Rightarrow> thrown + session" where
  \<comment> \<open>a write goes to the open transaction; outside one it is committed at once\<close>
  "write_db f s =
     (case in_tx s of
        Some w \<Rightarrow> (case f w of Inl e \<Rightarrow> Inl e | Inr w' \<Rightarrow> Inr (s\<lparr>in_tx := Some w'\<rparr>))
      | None \<Rightarrow> (case f (committed s) of Inl e \<Rightarrow> Inl e | Inr d \<Rightarrow> Inr (s\<lparr>committed := d\<rparr>)))"

fun exec :: "stmt \<Rightarrow> session \<Rightarrow> thrown + session" where
  "exec Begin s = Inr (case in_tx s of None \<Rightarrow> s\<lparr>in_tx := Some (committed s)\<rparr> | Some w \<Rightarrow> s)"
| "exec Commit s =
     Inr (case in_tx s of None \<Rightarrow> s | Some w \<Rightarrow> s\<lparr>committed := w, in_tx := None\<rparr>)"
| "exec Rollback s = Inr (s\<lparr>in_tx := None\<rparr>)"
| "exec (UpdateGuest gid nm dest t) s = write_db (update_guest_entry gid nm dest t) s"
| "exec (DeleteLegs gid) s = write_db (delete_legs gid) s"
| "exec (InsertLeg gid leg i) s =
     (case write_db (insert_leg (leg_seq s) gid leg i) s of
        Inl e \<Rightarrow> Inl e
      | Inr s' \<Rightarrow> Inr (s'\<lparr>leg_seq := leg_seq s + 1\<rparr>))"

text \<open>
  Running the statements of a request in turn. \<open>fails k\<close> says that the store rejects
  the \<open>k\<close>-th statement for a reason the tables do not show (a lost connection, a
  value too long for its column). The result is what was thrown, if anything, and the
  session after each statement that went through.
\<close>

fun run :: "(nat \<Rightarrow> bool) \<Rightarrow> nat \<Rightarrow> stmt list \<Rightarrow> session \<Rightarrow> thrown option \<times> session list" where
  "run fails k [] s = (None, [])"
| "run fails k (q # qs) s =
     (if fails k then (Some DatabaseError, [])
      else (case exec q s of
              Inl e \<Rightarrow> (Some e, [])
            | Inr s' \<Rightarrow> (let (r, trace) = run fails (k + 1) qs s' in (r, s' # trace))))"

fun insert_statements :: "int \<Rightarrow> leg_input list \<Rightarrow> nat \<Rightarrow> stmt list" where
  \<comment> \<open>\<open>for (let i = 0; i < legs.length; i++)\<close>\<close>
  "insert_statements gid [] i = []"
| "insert_statements gid (leg # legs) i = InsertLeg gid leg i # insert_statements gid legs (i + 1)"

definition put_statements :: "int \<Rightarrow> string option \<Rightarrow> leg_input list \<Rightarrow> stmt list" where
  "put_statements gid nm legs =
     UpdateGuest gid nm (in_destination (last legs)) (in_eta (last legs))
     # DeleteLegs gid # insert_statements gid legs 0 @ [Commit]"

definition put_guest_part000 ::
  "(nat \<Rightarrow> bool) \<Rightarrow> int \<Rightarrow> string option \<Rightarrow> leg_input list \<Rightarrow> session \<Rightarrow> reply \<times> session list" where
  \<comment> \<open>with no leg in the body, \<open>finalLeg\<close> is undefined and \<open>finalLeg.destination\<close>
      throws after BEGIN; the \<open>catch\<close> rolls back\<close>
  "put_guest_part000 fails gid nm legs s =
     (let (err, trace) =
            (if legs = [] then
               (case run fails 0 [Begin] s of
                  (None, trace) \<Rightarrow> (Some TypeError, trace)
                | (Some e, trace) \<Rightarrow> (Some e, trace))
             else run fails 0 (Begin # put_statements gid nm legs) s)
      in case err of
           None \<Rightarrow> ((200, Success), trace)
         | Some e \<Rightarrow> ((500, ErrorOf e), trace @ [(last (s # trace))\<lparr>in_tx := None\<rparr>]))"

definition legs_of :: "int \<Rightarrow> db \<Rightarrow> leg_row list" where
  "legs_of gid d = filter (\<lambda>fl. leg_guest_id fl = gid) (flight_legs d)"

text \<open>The statements that write to a table.\<close>

fun is_write :: "stmt \<Rightarrow> bool" where
  "is_write (UpdateGuest gid nm dest t) = True"
| "is_write (DeleteLegs gid) = True"
| "is_write (InsertLeg gid leg i) = True"
| "is_write q = False"

section \<open>PUT and DELETE /api/guests/:id of the second half of server.js (lines 378-431)\<close>

text \<open>
  The body of an update, a field it leaves out being \<open>None\<close>. \<open>rejects\<close> says
  that the store rejects the query for a reason the table does not show. In this variant
  \<open>name\<close>, \<open>flight\<close>, \<open>airline\<close>, \<open>origin\<close> and \<open>eta\<close> are NOT NULL.
\<close>

record guest_body =
  b_name :: "string option"
  b_flight :: "string option"
  b_airline :: "string option"
  b_airlineName :: "string option"
  b_origin :: "string option"
  b_eta :: "int option"
  b_status :: "string option"
  b_carAssigned :: "int option"

definition update_returning ::
  "int \<Rightarrow> guest_body \<Rightarrow> guest_row list \<Rightarrow> thrown + (guest_row list \<times> guest_row list)" where
  \<comment> \<open>\<open>UPDATE guests SET ... WHERE id = $9 RETURNING *\<close>: the rows returned and the
      table after\<close>
  "update_returning gid b table =
     (if list_ex (\<lambda>g. id g = gid) table then
        (case (b_name b, b_flight b, b_airline b, b_origin b, b_eta b) of
           (Some n, Some f, Some a, Some orig, Some t) \<Rightarrow>
             (let set_row = (\<lambda>g. g\<lparr>name := n, flight := f, airline := Some a,
                                   airline_name := b_airlineName b, origin := Some orig,
                                   eta := Some t, status := b_status b,
                                   car_assigned := b_carAssigned b\<rparr>)
              in Inr (map set_row (filter (\<lambda>g. id g = gid) table),
                      map (\<lambda>g. if id g = gid then set_row g else g) table))
         | _ \<Rightarrow> Inl DatabaseError)
      else Inr ([], table))"

definition put_guest_server2 ::
  "bool \<Rightarrow> int \<Rightarrow> guest_body \<Rightarrow> guest_row list \<Rightarrow> reply \<times> guest_row list" where
  "put_guest_server2 rejects gid b table =
     (if rejects then ((500, ErrorMessage ''Failed to update guest''), table)
      else (case update_returning gid b table of
              Inl e \<Rightarrow> ((500, ErrorMessage ''Failed to update guest''), table)
            | Inr (rows, table') \<Rightarrow>
                (case rows of
                   [] \<Rightarrow> ((404, ErrorMessage ''Guest not found''), table')
                 | row # others \<Rightarrow> ((200, GuestJson row), table'))))"

definition delete_returning :: "int \<Rightarrow> guest_row list \<Rightarrow> guest_row list \<times> guest_row list" where
  \<comment> \<open>\<open>DELETE FROM guests WHERE id = $1 RETURNING *\<close>\<close>
  "delete_returning gid table =
     (filter (\<lambda>g. id g = gid) table, filter (\<lambda>g. id g \<noteq> gid) table)"

definition delete_guest_server2 :: "bool \<Rightarrow> int \<Rightarrow> guest_row list \<Rightarrow> reply \<times> guest_row list" where
  "delete_guest_server2 rejects gid table =
     (if rejects then ((500, ErrorMessage ''Failed to delete guest''), table)
      else (case delete_returning gid table of
              (rows, table') \<Rightarrow>
                (if length rows = 0 then ((404, ErrorMessage ''Guest not found''), table')
                 else ((200, Message ''Guest deleted successfully''), table'))))"

subsection \<open>GET /api/flight-status (server.js lines 576-631)\<close>

definition endpoint_status :: "flight_obj \<Rightarrow> string" where
  "endpoint_status flightData =
     (case flight_status flightData of
        None \<Rightarrow> OnTime
      | Some v \<Rightarrow>
          if v = [] then OnTime
          else (let aviationStatus = toLowerCase v
                in if aviationStatus = ''landed'' then Landed
                   else if aviationStatus = ''cancelled'' \<or> aviationStatus = ''canceled''
                     then Cancelled
                   else if aviationStatus = ''delayed'' then Delayed
                   else if aviationStatus = ''active'' \<or> aviationStatus = ''scheduled''
                           \<or> aviationStatus = ''en-route''
                     then OnTime
                   else OnTime))"

definition flight_status_endpoint ::
  "string option \<Rightarrow> provider \<Rightarrow> string option \<Rightarrow> string option \<Rightarrow> reply" where
  "flight_status_endpoint api_key axios_get flight_param airline_param =
     (if \<not> truthy flight_param \<or> \<not> truthy airline_param
      then (400, ErrorMessage ''Flight and airline parameters are required'')
      else if \<not> truthy api_key then (200, StatusJson OnTime)
      else (case axios_get \<lparr>access_key = api_key,
                              flight_iata = js_string airline_param @ js_string flight_param,
                              flight_date = None, limit = Some 1\<rparr> of
              Rejected \<Rightarrow> (200, StatusJson OnTime)
            | Resolved d \<Rightarrow>
                (case d of
                   FlightList (flightData # rest) \<Rightarrow> (200, StatusJson (endpoint_status flightData))
                 | _ \<Rightarrow> (200, StatusJson OnTime))))"

subsection \<open>DELETE /api/guests/:id of part_000 (lines 220-232)\<close>

text \<open>
  The other four variants run the same statement without \<open>RETURNING\<close> and answer
  success whatever it removed. The handler of part_000 is taken here.
\<close>

definition delete_guest_part000 :: "bool \<Rightarrow> int \<Rightarrow> db \<Rightarrow> reply \<times> db" where
  \<comment> \<open>\<open>ON DELETE CASCADE\<close> removes the legs of the guest\<close>
  "delete_guest_part000 rejects gid d =
     (if rejects then ((500, ErrorOf DatabaseError), d)
      else ((200, Success),
            \<lparr>guests = filter (\<lambda>g. g_id g \<noteq> gid) (guests d),
             flight_legs = filter (\<lambda>fl. leg_guest_id fl \<noteq> gid) (flight_legs d)\<rparr>))"

section \<open>Sample rows and provider answers\<close>

text \<open>Concrete values for the examples that follow the theorems.\<close>

definition sample_guest :: "int \<Rightarrow> string \<Rightarrow> string \<Rightarrow> int \<Rightarrow> guest_row" where
  "sample_guest i f a t =
     \<lparr>id = i, name = ''guest'', flight = f, airline = Some a, airline_name = None,
      origin = Some ''LHR'', eta = Some t, status = Some OnTime, car_assigned = None\<rparr>"

definition sample_leg :: "int \<Rightarrow> string \<Rightarrow> int \<Rightarrow> string \<Rightarrow> leg_row" where
  "sample_leg i f t s =
     \<lparr>leg_id = i, leg_guest_id = 1, flight_number = f, leg_airline = Some ''BA'',
      leg_origin = ''LHR'', leg_destination = ''JFK'', leg_eta = t, leg_status = s,
      leg_order = 0\<rparr>"

definition utc_zone :: zone where
  \<comment> \<open>a process that runs in UTC\<close>
  "utc_zone w = w"

declare utc_zone_def [simp]

definition answers :: "string \<Rightarrow> provider" where
  "answers v = (\<lambda>r. Resolved (FlightList
     [\<lparr>flight_status = Some v, departure = None, arrival = None\<rparr>]))"

definition guests_on_xy100 :: "int list \<Rightarrow> guest_row list" where
  "guests_on_xy100 ids = map (\<lambda>i. sample_guest i ''XY100'' ''BA'' 1000) ids"

definition guests_on :: "string \<Rightarrow> int list \<Rightarrow> guest_row list" where
  "guests_on f ids = map (\<lambda>i. sample_guest i f ''BA'' 1000) ids"

definition sample_input :: "string option \<Rightarrow> leg_input" where
  "sample_input orig =
     \<lparr>in_flight = Some ''200'', in_airline = Some ''BA'', in_origin = orig,
      in_destination = Some ''JFK'', in_eta = Some 5000, in_status = None\<rparr>"

definition sample_session :: session where
  "sample_session =
     \<lparr>committed =
        \<lparr>guests = [\<lparr>g_id = 1, g_name = ''Ann'', final_destination = Some ''JFK'',
                     final_eta = Some 1000, g_car_assigned = None\<rparr>],
         flight_legs = [sample_leg 1 ''100'' 1000 OnTime]\<rparr>,
      in_tx = None, leg_seq = 2\<rparr>"

section \<open>Properties of the status lookups\<close>

subsection \<open>fetchFlightStatus\<close>

lemma status_of_flight_cases:
  "(flight_status entry = Some ''cancelled'' \<longrightarrow> status_of_flight entry = Cancelled)
   \<and> (flight_status entry = Some ''landed'' \<longrightarrow> status_of_flight entry = Landed)
   \<and> (flight_status entry = Some ''active'' \<longrightarrow> status_of_flight entry = OnTime)
   \<and> (flight_status entry = Some ''scheduled'' \<longrightarrow>
        status_of_flight entry
          = (if (\<exists>dep n. departure entry = Some dep \<and> delay dep = Some n \<and> n > 0)
             then Delayed else OnTime))
   \<and> (flight_status entry \<notin> {Some ''cancelled'', Some ''landed'', Some ''active'',
                               Some ''scheduled''} \<longrightarrow>
        status_of_flight entry = OnTime)"
  by (auto simp: status_of_flight_def delay_positive_def split: option.splits)

lemma fetch_try_cases:
  "fetch_try axios_get req =
     ((case axios_get req of
         Rejected \<Rightarrow> Inl AxiosError
       | Resolved NoBody \<Rightarrow> Inr None
       | Resolved NoList \<Rightarrow> Inr None
       | Resolved (FlightList []) \<Rightarrow> Inr None
       | Resolved (FlightList (entry # rest)) \<Rightarrow> Inr (Some (status_of_flight entry))),
      [req])"
  by (simp add: fetch_try_def split: axios_result.splits response_data.splits list.splits)

lemma fetchFlightStatus_part000_cases:
  "fetchFlightStatus_part000 api_key axios_get flightNumber airlineCode date =
     ((case axios_get (fetch_request api_key flightNumber airlineCode date) of
         Resolved (FlightList (entry # rest)) \<Rightarrow> Inr (Some (status_of_flight entry))
       | _ \<Rightarrow> Inr None),
      [fetch_request api_key flightNumber airlineCode date])"
  by (simp add: fetchFlightStatus_part000_def fetch_try_cases
      split: axios_result.splits response_data.splits list.splits)

lemma fetchFlightStatus_part001_cases:
  "fetchFlightStatus_part001 api_key axios_get flightNumber airlineCode date =
     (if truthy api_key then
        ((case axios_get (fetch_request api_key flightNumber airlineCode date) of
            Resolved (FlightList (entry # rest)) \<Rightarrow> Inr (Some (status_of_flight entry))
          | _ \<Rightarrow> Inr None),
         [fetch_request api_key flightNumber airlineCode date])
      else (Inr None, []))"
  by (simp add: fetchFlightStatus_part001_def fetch_try_cases
      split: axios_result.splits response_data.splits list.splits)

lemma fetchFlightStatus_mapped:
  assumes "axios_get (fetch_request api_key flightNumber airlineCode date)
             = Resolved (FlightList (entry # rest))"
  shows "fst (fetchFlightStatus_part000 api_key axios_get flightNumber airlineCode date)
           = Inr (Some (status_of_flight entry))"
    and "truthy api_key \<Longrightarrow>
         fst (fetchFlightStatus_part001 api_key axios_get flightNumber airlineCode date)
           = Inr (Some (status_of_flight entry))"
  using assms by (simp_all add: fetchFlightStatus_part000_cases fetchFlightStatus_part001_cases)

lemma fetchFlightStatus_part001_unavailable:
  "(\<exists>r. fst (fetchFlightStatus_part001 api_key axios_get flightNumber airlineCode date) = Inr r)
   \<and> (\<not> truthy api_key \<longrightarrow>
        fst (fetchFlightStatus_part001 api_key axios_get flightNumber airlineCode date)
          = Inr None)
   \<and> (axios_get (fetch_request api_key flightNumber airlineCode date)
          \<in> {Rejected, Resolved NoBody, Resolved NoList, Resolved (FlightList [])} \<longrightarrow>
        fst (fetchFlightStatus_part001 api_key axios_get flightNumber airlineCode date)
          = Inr None)
   \<and> (\<forall>s. fst (fetchFlightStatus_part001 api_key axios_get flightNumber airlineCode date)
               = Inr (Some s) \<longrightarrow>
          truthy api_key \<and>
          (\<exists>entry rest. axios_get (fetch_request api_key flightNumber airlineCode date)
                           = Resolved (FlightList (entry # rest))
                         \<and> s = status_of_flight entry))"
  by (auto simp: fetchFlightStatus_part001_cases
      split: axios_result.splits response_data.splits list.splits)


subsection \<open>The status map and the flight-status endpoint of server.js\<close>

lemma mapped_status_cases:
  "flight_status entry = None \<Longrightarrow> mapped_status entry = Text OnTime"
  "flight_status entry = Some v \<Longrightarrow> toLowerCase v = ''cancelled'' \<Longrightarrow>
     mapped_status entry = Text Cancelled"
  "flight_status entry = Some v \<Longrightarrow> toLowerCase v = ''landed'' \<Longrightarrow>
     mapped_status entry = Text Landed"
  "flight_status entry = Some v \<Longrightarrow> toLowerCase v = ''delayed'' \<Longrightarrow>
     mapped_status entry = Text Delayed"
  "flight_status entry = Some v \<Longrightarrow> toLowerCase v = ''active'' \<Longrightarrow>
     mapped_status entry = Text OnTime"
  "flight_status entry = Some v \<Longrightarrow> toLowerCase v = ''scheduled'' \<Longrightarrow>
     mapped_status entry = Text OnTime"
  "flight_status entry = Some v \<Longrightarrow>
     toLowerCase v \<notin> {''cancelled'', ''landed'', ''delayed'', ''active'', ''scheduled''} \<Longrightarrow>
     toLowerCase v \<notin> set object_prototype_keys \<Longrightarrow>
     mapped_status entry = Text OnTime"
  by (simp_all add: mapped_status_def statusMap_def Let_def)

lemma endpoint_defaults:
  assumes "truthy flight_param" and "truthy airline_param"
    and "\<not> truthy api_key
         \<or> axios_get \<lparr>access_key = api_key,
                         flight_iata = js_string airline_param @ js_string flight_param,
                         flight_date = None, limit = Some 1\<rparr>
             \<in> {Rejected, Resolved NoBody, Resolved NoList, Resolved (FlightList [])}"
  shows "flight_status_endpoint api_key axios_get flight_param airline_param
           = (200, StatusJson OnTime)"
  using assms by (auto simp: flight_status_endpoint_def)

subsection \<open>The mapping of vendor statuses\<close>

text \<open>
  Against C2 as stated. The status map of the first half of server.js reads no delay: a flight that is
  \<open>scheduled\<close> with a departure delay of 25 minutes is On Time, where fetchFlightStatus
  says Delayed; and it knows the vendor status \<open>delayed\<close>, which fetchFlightStatus
  takes for On Time.
\<close>

theorem status_map_counterexample:
  "mapped_status \<lparr>flight_status = Some ''scheduled'', departure = Some \<lparr>delay = Some 25\<rparr>,
                   arrival = None\<rparr> = Text OnTime
   \<and> mapped_status \<lparr>flight_status = Some ''delayed'', departure = None, arrival = None\<rparr>
       = Text Delayed
   \<and> refresh_status_server1 (Some ''key'')
        (\<lambda>r. Resolved (FlightList
           [\<lparr>flight_status = Some ''scheduled'', departure = Some \<lparr>delay = Some 25\<rparr>,
             arrival = None\<rparr>]))
        (sample_guest 1 ''100'' ''BA'' 1000) = Some (Text OnTime)"
  by (simp add: mapped_status_def statusMap_def toLowerCase_def lower_char_def
      refresh_status_server1_def sample_guest_def truthy_def)

text \<open>
  C2, as the code has it. When the provider answers with a non-empty result set,
  fetchFlightStatus of part_000, and that of part_001 when the credential is set, returns
  the status mapped from the first entry: vendor \<open>cancelled\<close> gives Cancelled,
  \<open>landed\<close> gives Landed, \<open>active\<close> gives On Time,
  \<open>scheduled\<close> gives Delayed when the reported departure delay is greater than 0
  and On Time otherwise, and every other vendor status (an absent one too) gives On Time.
  The status map of the first half of server.js compares the vendor status in lower case:
  \<open>cancelled\<close> gives Cancelled, \<open>landed\<close> gives Landed,
  \<open>delayed\<close> gives Delayed, \<open>active\<close> and \<open>scheduled\<close> give
  On Time whatever the delay, and an absent status or any other that names no property of
  \<open>Object.prototype\<close> gives On Time.
\<close>

theorem vendor_status_mappings:
  "(axios_get (fetch_request api_key flightNumber airlineCode date)
      = Resolved (FlightList (entry # rest)) \<longrightarrow>
      (flight_status entry = Some ''cancelled'' \<longrightarrow>
         fst (fetchFlightStatus_part000 api_key axios_get flightNumber airlineCode date)
           = Inr (Some Cancelled)
         \<and> (truthy api_key \<longrightarrow>
              fst (fetchFlightStatus_part001 api_key axios_get flightNumber airlineCode date)
                = Inr (Some Cancelled)))
      \<and> (flight_status entry = Some ''landed'' \<longrightarrow>
            fst (fetchFlightStatus_part000 api_key axios_get flightNumber airlineCode date)
              = Inr (Some Landed)
            \<and> (truthy api_key \<longrightarrow>
                 fst (fetchFlightStatus_part001 api_key axios_get flightNumber airlineCode date)
                   = Inr (Some Landed)))
      \<and> (flight_status entry = Some ''active'' \<longrightarrow>
            fst (fetchFlightStatus_part000 api_key axios_get flightNumber airlineCode date)
              = Inr (Some OnTime)
            \<and> (truthy api_key \<longrightarrow>
                 fst (fetchFlightStatus_part001 api_key axios_get flightNumber airlineCode date)
                   = Inr (Some OnTime)))
      \<and> (flight_status entry = Some ''scheduled'' \<longrightarrow>
            fst (fetchFlightStatus_part000 api_key axios_get flightNumber airlineCode date)
              = Inr (Some (if (\<exists>dep n. departure entry = Some dep \<and> delay dep = Some n \<and> n > 0)
                           then Delayed else OnTime))
            \<and> (truthy api_key \<longrightarrow>
                 fst (fetchFlightStatus_part001 api_key axios_get flightNumber airlineCode date)
                   = Inr (Some (if (\<exists>dep n. departure entry = Some dep \<and> delay dep = Some n
                                           \<and> n > 0)
                                then Delayed else OnTime))))
      \<and> (flight_status entry \<notin> {Some ''cancelled'', Some ''landed'', Some ''active'',
                                   Some ''scheduled''} \<longrightarrow>
            fst (fetchFlightStatus_part000 api_key axios_get flightNumber airlineCode date)
              = Inr (Some OnTime)
            \<and> (truthy api_key \<longrightarrow>
                 fst (fetchFlightStatus_part001 api_key axios_get flightNumber airlineCode date)
                   = Inr (Some OnTime))))
   \<and> (flight_status entry = None \<longrightarrow> mapped_status entry = Text OnTime)
   \<and> (\<forall>v. flight_status entry = Some v \<longrightarrow>
          (toLowerCase v = ''cancelled'' \<longrightarrow> mapped_status entry = Text Cancelled)
          \<and> (toLowerCase v = ''landed'' \<longrightarrow> mapped_status entry = Text Landed)
          \<and> (toLowerCase v = ''delayed'' \<longrightarrow> mapped_status entry = Text Delayed)
          \<and> (toLowerCase v = ''active'' \<or> toLowerCase v = ''scheduled'' \<longrightarrow>
                mapped_status entry = Text OnTime)
          \<and> (toLowerCase v \<notin> {''cancelled'', ''landed'', ''delayed'', ''active'', ''scheduled''}
               \<and> toLowerCase v \<notin> set object_prototype_keys \<longrightarrow>
                mapped_status entry = Text OnTime))"
proof -
  have "fst (fetchFlightStatus_part000 api_key axios_get flightNumber airlineCode date)
          = Inr (Some (status_of_flight entry))
      \<and> (truthy api_key \<longrightarrow>
           fst (fetchFlightStatus_part001 api_key axios_get flightNumber airlineCode date)
             = Inr (Some (status_of_flight entry)))"
    if "axios_get (fetch_request api_key flightNumber airlineCode date)
          = Resolved (FlightList (entry # rest))"
    using that fetchFlightStatus_mapped [of axios_get api_key flightNumber airlineCode date entry rest]
    by simp
  then show ?thesis
    using status_of_flight_cases [of entry] mapped_status_cases [of entry]
    by (simp del: insert_iff)
qed

theorem vendor_status_mappings_witness:
  "fst (fetchFlightStatus_part000 (Some ''key'')
     (\<lambda>r. Resolved (FlightList
        [\<lparr>flight_status = Some ''scheduled'', departure = Some \<lparr>delay = Some 25\<rparr>,
          arrival = None\<rparr>]))
     ''100'' (Some ''BA'') 19000) = Inr (Some Delayed)
   \<and> fst (fetchFlightStatus_part001 (Some ''key'') (answers ''active'') ''100'' (Some ''BA'')
            19000)
       = Inr (Some OnTime)
   \<and> mapped_status \<lparr>flight_status = Some ''Landed'', departure = None, arrival = None\<rparr>
       = Text Landed"
  using vendor_status_mappings
      [where axios_get = "\<lambda>r. Resolved (FlightList
        [\<lparr>flight_status = Some ''scheduled'', departure = Some \<lparr>delay = Some 25\<rparr>,
          arrival = None\<rparr>])"
        and entry = "\<lparr>flight_status = Some ''scheduled'', departure = Some \<lparr>delay = Some 25\<rparr>,
          arrival = None\<rparr>" and rest = "[]" and api_key = "Some ''key''"
        and flightNumber = "''100''" and airlineCode = "Some ''BA''" and date = 19000]
    vendor_status_mappings
      [where axios_get = "answers ''active''"
        and entry = "\<lparr>flight_status = Some ''active'', departure = None, arrival = None\<rparr>"
        and rest = "[]" and api_key = "Some ''key''"
        and flightNumber = "''100''" and airlineCode = "Some ''BA''" and date = 19000]
    vendor_status_mappings
      [where axios_get = "answers ''active''"
        and entry = "\<lparr>flight_status = Some ''Landed'', departure = None, arrival = None\<rparr>"
        and rest = "[]" and api_key = "Some ''key''"
        and flightNumber = "''100''" and airlineCode = "Some ''BA''" and date = 19000]
  by (simp add: answers_def toLowerCase_def lower_char_def truthy_def)

subsection \<open>Lookups that fail or find nothing\<close>

text \<open>
  Against C7 as stated. GET /api/flight-status of server.js answers with the status
  On Time when the credential is not set, when the request is rejected and when the result set is empty.
\<close>

theorem flight_status_endpoint_counterexample:
  "flight_status_endpoint None (answers ''landed'') (Some ''100'') (Some ''BA'')
     = (200, StatusJson OnTime)
   \<and> flight_status_endpoint (Some ''key'') (\<lambda>r. Rejected) (Some ''100'') (Some ''BA'')
     = (200, StatusJson OnTime)
   \<and> flight_status_endpoint (Some ''key'') (\<lambda>r. Resolved (FlightList []))
       (Some ''100'') (Some ''BA'')
     = (200, StatusJson OnTime)"
  by (simp add: flight_status_endpoint_def truthy_def)

text \<open>
  C7, as the code has it. fetchFlightStatus of part_001 never throws to its caller: it
  always returns. It returns null when the credential is not set (absent or empty), when
  the request is rejected (a network failure, a timeout, an HTTP error status) and when
  the response holds no flight; it returns a status only with the credential set and from
  the first flight of a non-empty result set. GET /api/flight-status of server.js, asked
  with a flight and an airline, answers 200 with the status On Time in each of those cases.
\<close>

theorem unavailable_or_default:
  "(\<exists>r. fst (fetchFlightStatus_part001 api_key axios_get flightNumber airlineCode date) = Inr r)
   \<and> (\<not> truthy api_key \<longrightarrow>
        fst (fetchFlightStatus_part001 api_key axios_get flightNumber airlineCode date)
          = Inr None)
   \<and> (axios_get (fetch_request api_key flightNumber airlineCode date)
          \<in> {Rejected, Resolved NoBody, Resolved NoList, Resolved (FlightList [])} \<longrightarrow>
        fst (fetchFlightStatus_part001 api_key axios_get flightNumber airlineCode date)
          = Inr None)
   \<and> (\<forall>s. fst (fetchFlightStatus_part001 api_key axios_get flightNumber airlineCode date)
               = Inr (Some s) \<longrightarrow>
          truthy api_key \<and>
          (\<exists>entry rest. axios_get (fetch_request api_key flightNumber airlineCode date)
                           = Resolved (FlightList (entry # rest))
                         \<and> s = status_of_flight entry))
   \<and> (truthy flight_param \<and> truthy airline_param
        \<and> (\<not> truthy api_key
            \<or> axios_get \<lparr>access_key = api_key,
                            flight_iata = js_string airline_param @ js_string flight_param,
                            flight_date = None, limit = Some 1\<rparr>
                \<in> {Rejected, Resolved NoBody, Resolved NoList, Resolved (FlightList [])}) \<longrightarrow>
        flight_status_endpoint api_key axios_get flight_param airline_param
          = (200, StatusJson OnTime))"
  using fetchFlightStatus_part001_unavailable [of api_key axios_get flightNumber airlineCode date]
    endpoint_defaults [of flight_param airline_param api_key axios_get]
  by blast

theorem unavailable_or_default_witness:
  "fst (fetchFlightStatus_part001 None (answers ''landed'') ''100'' (Some ''BA'') 19000)
     = Inr None
   \<and> fst (fetchFlightStatus_part001 (Some ''key'') (\<lambda>r. Rejected) ''100'' (Some ''BA'') 19000)
       = Inr None
   \<and> fst (fetchFlightStatus_part001 (Some ''key'') (\<lambda>r. Resolved (FlightList []))
            ''100'' (Some ''BA'') 19000) = Inr None
   \<and> flight_status_endpoint None (answers ''landed'') (Some ''100'') (Some ''BA'')
       = (200, StatusJson OnTime)"
  using unavailable_or_default
      [where api_key = None and axios_get = "answers ''landed''"
        and flightNumber = "''100''" and airlineCode = "Some ''BA''" and date = 19000
        and flight_param = "Some ''100''" and airline_param = "Some ''BA''"]
    unavailable_or_default
      [where api_key = "Some ''key''" and axios_get = "\<lambda>r. Rejected"
        and flightNumber = "''100''" and airlineCode = "Some ''BA''" and date = 19000
        and flight_param = "Some ''100''" and airline_param = "Some ''BA''"]
    unavailable_or_default
      [where api_key = "Some ''key''" and axios_get = "\<lambda>r. Resolved (FlightList [])"
        and flightNumber = "''100''" and airlineCode = "Some ''BA''" and date = 19000
        and flight_param = "Some ''100''" and airline_param = "Some ''BA''"]
  by (simp add: truthy_def)

section \<open>Properties of the reconciliation\<close>

subsection \<open>The loop of updateFlightStatuses\<close>

lemma update_leg_status_ids [simp]:
  "map leg_id (update_leg_status s i table) = map leg_id table"
  by (simp add: update_leg_status_def comp_def)

lemma update_leg_status_other:
  "leg \<in> set table \<Longrightarrow> leg_id leg \<noteq> i \<Longrightarrow> leg \<in> set (update_leg_status s i table)"
  by (force simp: update_leg_status_def)

lemma status_loop_lookups:
  assumes sends: "\<And>fn al d. \<exists>r. fetch fn al d = (Inr r, sent fn al d)"
  shows "lookups (status_loop fetch utc rows table)
           = concat (map (\<lambda>fl. map (Pair (leg_id fl))
                           (sent (flight_number fl) (leg_airline fl) (utc_day (utc (leg_eta fl)))))
               (takeWhile (\<lambda>fl. driver_date utc (leg_eta fl) \<noteq> None) rows))
       \<and> raised (status_loop fetch utc rows table)
           = (if \<forall>fl \<in> set rows. driver_date utc (leg_eta fl) \<noteq> None then None
              else Some RangeError)"
proof (induction rows arbitrary: table)
  case Nil
  show ?case by simp
next
  case (Cons leg rows)
  show ?case
  proof (cases "driver_date utc (leg_eta leg)")
    case None
    then show ?thesis by (simp add: iso_date_def)
  next
    case (Some t)
    then have t: "t = utc (leg_eta leg)"
      by (simp add: driver_date_def time_clip_def split: if_splits)
    obtain r where r: "fetch (flight_number leg) (leg_airline leg) (utc_day t)
        = (Inr r, sent (flight_number leg) (leg_airline leg) (utc_day t))"
      using sends by blast
    show ?thesis
      using Cons.IH Some by (simp add: iso_date_def r Let_def t [symmetric])
  qed
qed

lemma status_loop_ids:
  "map leg_id (table_after (status_loop fetch utc rows table)) = map leg_id table"
proof (induction rows arbitrary: table)
  case Nil
  show ?case by simp
next
  case (Cons leg rows)
  show ?case
    using Cons.IH
    by (simp add: Let_def split: sum.splits prod.splits option.splits)
qed

lemma status_loop_keeps:
  "leg \<in> set table \<Longrightarrow>
   (\<forall>row \<in> set rows. leg_id row = leg_id leg \<longrightarrow>
      (\<forall>date. iso_date (driver_date utc (leg_eta row)) = Inr date \<longrightarrow>
         (\<forall>s. fst (fetch (flight_number row) (leg_airline row) date) \<noteq> Inr (Some s)))) \<Longrightarrow>
   leg \<in> set (table_after (status_loop fetch utc rows table))"
proof (induction rows arbitrary: table)
  case Nil
  then show ?case by simp
next
  case (Cons row rows)
  from Cons.prems(2) have rest: "\<forall>row \<in> set rows. leg_id row = leg_id leg \<longrightarrow>
      (\<forall>date. iso_date (driver_date utc (leg_eta row)) = Inr date \<longrightarrow>
         (\<forall>s. fst (fetch (flight_number row) (leg_airline row) date) \<noteq> Inr (Some s)))"
    by simp
  show ?case
  proof (cases "iso_date (driver_date utc (leg_eta row))")
    case (Inl e)
    then show ?thesis using Cons.prems(1) by simp
  next
    case (Inr date)
    obtain res sent where f: "fetch (flight_number row) (leg_airline row) date = (res, sent)"
      by (cases "fetch (flight_number row) (leg_airline row) date")
    show ?thesis
    proof (cases res)
      case (Inl e)
      then show ?thesis using Cons.prems(1) by (simp add: Inr f)
    next
      case r: (Inr flightStatus)
      show ?thesis
      proof (cases flightStatus)
        case None
        then show ?thesis
          using Cons.IH [OF Cons.prems(1) rest] by (simp add: Inr f r Let_def)
      next
        case (Some s)
        have ne: "leg_id leg \<noteq> leg_id row"
        proof
          assume "leg_id leg = leg_id row"
          with Cons.prems(2) Inr have "fst (fetch (flight_number row) (leg_airline row) date)
              \<noteq> Inr (Some s)"
            by simp
          with f r Some show False by simp
        qed
        have "leg \<in> set (update_leg_status s (leg_id row) table)"
          using Cons.prems(1) ne by (rule update_leg_status_other)
        then show ?thesis
          using Cons.IH [OF _ rest] by (simp add: Inr f r Some Let_def)
      qed
    qed
  qed
qed

lemma open_leg_ids:
  assumes "distinct (map leg_id table)" "leg \<in> set table" "terminal (leg_status leg)"
  shows "leg_id leg \<notin> leg_id ` set (select_open_legs table)"
proof
  assume "leg_id leg \<in> leg_id ` set (select_open_legs table)"
  then obtain fl where fl: "fl \<in> set table" "\<not> terminal (leg_status fl)" "leg_id fl = leg_id leg"
    by (auto simp: select_open_legs_def)
  from assms(1) fl(1) assms(2) fl(3) have "fl = leg"
    by (meson distinct_map inj_onD)
  with fl(2) assms(3) show False by simp
qed

lemma concat_map_single:
  "concat (map (\<lambda>x. map (Pair (f x)) [g x]) xs) = map (\<lambda>x. (f x, g x)) xs"
  by (induction xs) simp_all

lemma concat_map_none: "concat (map (\<lambda>x. map (Pair (f x)) []) xs) = []"
  by (induction xs) simp_all

lemma updateFlightStatuses_part000_lookups:
  "lookups (updateFlightStatuses_part000 api_key axios_get utc table)
     = map (\<lambda>fl. (leg_id fl, fetch_request api_key (flight_number fl) (leg_airline fl)
                                (utc_day (utc (leg_eta fl)))))
         (takeWhile (\<lambda>fl. driver_date utc (leg_eta fl) \<noteq> None) (select_open_legs table))
   \<and> raised (updateFlightStatuses_part000 api_key axios_get utc table)
       = (if \<forall>fl \<in> set (select_open_legs table). driver_date utc (leg_eta fl) \<noteq> None
          then None else Some RangeError)"
proof -
  have "\<exists>r. fetchFlightStatus_part000 api_key axios_get fn al d
             = (Inr r, [fetch_request api_key fn al d])" for fn al d
    by (simp add: fetchFlightStatus_part000_cases
        split: axios_result.splits response_data.splits list.splits)
  from status_loop_lookups [of "fetchFlightStatus_part000 api_key axios_get"
      "\<lambda>fn al d. [fetch_request api_key fn al d]", OF this]
  show ?thesis
    by (simp add: updateFlightStatuses_part000_def concat_map_single)
qed

lemma updateFlightStatuses_part001_lookups:
  "lookups (updateFlightStatuses_part001 api_key axios_get utc now table)
     = (if truthy api_key
        then map (\<lambda>fl. (leg_id fl, fetch_request api_key (flight_number fl) (leg_airline fl)
                                     (utc_day (utc (leg_eta fl)))))
               (takeWhile (\<lambda>fl. driver_date utc (leg_eta fl) \<noteq> None)
                  (select_open_legs_today (utc_day now) table))
        else [])
   \<and> raised (updateFlightStatuses_part001 api_key axios_get utc now table) = None"
proof -
  have "\<exists>r. fetchFlightStatus_part001 api_key axios_get fn al d
             = (Inr r, if truthy api_key then [fetch_request api_key fn al d] else [])" for fn al d
    by (simp add: fetchFlightStatus_part001_cases
        split: axios_result.splits response_data.splits list.splits)
  from status_loop_lookups [of "fetchFlightStatus_part001 api_key axios_get"
      "\<lambda>fn al d. if truthy api_key then [fetch_request api_key fn al d] else []", OF this]
  show ?thesis
    by (simp add: updateFlightStatuses_part001_def concat_map_single concat_map_none Let_def)
qed

lemma updateFlightStatuses_part000_terminal:
  assumes "distinct (map leg_id table)" and "leg \<in> set table"
    and "leg_status leg = Landed \<or> leg_status leg = Cancelled"
  shows "map leg_id (table_after (updateFlightStatuses_part000 api_key axios_get utc table))
           = map leg_id table
       \<and> leg \<in> set (table_after (updateFlightStatuses_part000 api_key axios_get utc table))
       \<and> leg_id leg
           \<notin> fst ` set (lookups (updateFlightStatuses_part000 api_key axios_get utc table))"
proof -
  have t: "terminal (leg_status leg)" using assms(3) by (simp add: terminal_def)
  have ids: "leg_id leg \<notin> leg_id ` set (select_open_legs table)"
    using assms(1,2) t by (rule open_leg_ids)
  have "fst ` set (lookups (updateFlightStatuses_part000 api_key axios_get utc table))
          \<subseteq> leg_id ` set (select_open_legs table)"
    using set_takeWhileD [of _ "\<lambda>fl. driver_date utc (leg_eta fl) \<noteq> None" "select_open_legs table"]
    by (auto simp: updateFlightStatuses_part000_lookups)
  moreover have "leg \<in> set (table_after (updateFlightStatuses_part000 api_key axios_get utc table))"
    unfolding updateFlightStatuses_part000_def
  proof (rule status_loop_keeps [OF assms(2)], intro ballI impI allI)
    fix row date s
    assume "row \<in> set (select_open_legs table)" "leg_id row = leg_id leg"
    with ids have False by (metis imageI)
    then show "fst (fetchFlightStatus_part000 api_key axios_get (flight_number row)
        (leg_airline row) date) \<noteq> Inr (Some s)" ..
  qed
  ultimately show ?thesis
    using ids by (auto simp: updateFlightStatuses_part000_def status_loop_ids)
qed

lemma updateFlightStatuses_part000_keeps_null:
  assumes "distinct (map leg_id table)" and "leg \<in> set table"
    and "\<forall>date. iso_date (driver_date utc (leg_eta leg)) = Inr date \<longrightarrow>
           fst (fetchFlightStatus_part000 api_key axios_get (flight_number leg) (leg_airline leg)
                  date) = Inr None"
  shows "leg \<in> set (table_after (updateFlightStatuses_part000 api_key axios_get utc table))"
  unfolding updateFlightStatuses_part000_def
proof (rule status_loop_keeps [OF assms(2)], intro ballI impI allI)
  fix row date s
  assume row: "row \<in> set (select_open_legs table)" and same: "leg_id row = leg_id leg"
    and d: "iso_date (driver_date utc (leg_eta row)) = Inr date"
  from row have "row \<in> set table" by (simp add: select_open_legs_def)
  with assms(1,2) same have "row = leg" by (meson distinct_map inj_onD)
  with assms(3) d show "fst (fetchFlightStatus_part000 api_key axios_get (flight_number row)
      (leg_airline row) date) \<noteq> Inr (Some s)"
    by simp
qed


subsection \<open>The refresh on a list read (part_002)\<close>

lemma refresh_guest_raised_or_empty:
  assumes "flight guest \<noteq> []" and "truthy (airline guest)" and "truthy (origin guest)"
  shows "(axios_get (guest_request api_key guest) \<in> {Rejected, Resolved NoBody} \<longrightarrow>
            refresh_guest_part002 api_key axios_get utc now guest
              = (if status guest = Some OnTime
                    \<and> date_less (column_date utc (eta guest)) (Some now)
                 then guest\<lparr>status := Some Landed\<rparr> else guest))
       \<and> (axios_get (guest_request api_key guest) \<in> {Resolved NoList, Resolved (FlightList [])} \<longrightarrow>
            refresh_guest_part002 api_key axios_get utc now guest = guest)"
  using assms by (auto simp: refresh_guest_part002_def refresh_try_part002_def truthy_def)

lemma refresh_guest_answered:
  assumes "flight guest \<noteq> []" and "truthy (airline guest)" and "truthy (origin guest)"
    and "axios_get (guest_request api_key guest) = Resolved (FlightList (entry # rest))"
  shows "refresh_guest_part002 api_key axios_get utc now guest
           = (case arrival_status entry of
                Inl e \<Rightarrow> if date_less (column_date utc (eta guest)) (Some now)
                              \<and> status guest = Some OnTime
                           then guest\<lparr>status := Some Landed\<rparr> else guest
              | Inr s \<Rightarrow> guest\<lparr>status := Some (if date_less (column_date utc (eta guest)) (Some now)
                                                    \<and> s = OnTime
                                                 then Landed else s)\<rparr>)"
  using assms
  by (simp add: refresh_guest_part002_def refresh_try_part002_def truthy_def split: sum.splits)

lemma arrival_status_cases:
  "(flight_status entry = Some ''cancelled'' \<longrightarrow> arrival_status entry = Inr Cancelled)
   \<and> (flight_status entry = Some ''landed'' \<longrightarrow> arrival_status entry = Inr Landed)
   \<and> (flight_status entry \<notin> {Some ''cancelled'', Some ''landed'', Some ''active'',
                               Some ''scheduled''} \<longrightarrow> arrival_status entry = Inr OnTime)
   \<and> (flight_status entry \<in> {Some ''active'', Some ''scheduled''} \<longrightarrow>
        (arrival entry = None \<longrightarrow> arrival_status entry = Inl TypeError)
        \<and> (\<forall>arr. arrival entry = Some arr \<longrightarrow>
              arrival_status entry
                = Inr (if date_less (field_date (scheduled arr))
                            (field_date (if field_truthy (estimated arr) then estimated arr
                                         else scheduled arr))
                       then Delayed else OnTime)))"
  by (auto simp: arrival_status_def Let_def)

subsection \<open>An unavailable result\<close>

text \<open>
  Against C1 as stated. In the refresh on a list read of part_002, a guest that is On Time,
  whose ETA lies in the past and for whom the provider answers with an empty result set
  keeps the status On Time: the fallback to Landed is not taken.
\<close>

theorem refresh_guest_no_data_counterexample:
  "status (refresh_guest_part002 (Some ''key'') (\<lambda>r. Resolved (FlightList [])) utc_zone 2000
            (sample_guest 1 ''100'' ''BA'' 1000)) = Some OnTime
   \<and> status (sample_guest 1 ''100'' ''BA'' 1000) = Some OnTime
   \<and> date_less (column_date utc_zone (eta (sample_guest 1 ''100'' ''BA'' 1000))) (Some 2000)"
  by (simp add: refresh_guest_part002_def refresh_try_part002_def sample_guest_def truthy_def
      date_less_def column_date_def driver_date_def time_clip_def max_time_def)

text \<open>
  C1, as the code has it. In the refresh on a list read of part_002, for a guest that is
  looked up (flight, airline and origin are non-empty): when the provider call raises (the
  request is rejected, or the response has no body), the status becomes Landed if it is
  On Time and the ETA, read as a date, is strictly before now, and the row is kept as it is
  otherwise; when the provider answers without data (no list, or an empty one), the row is
  kept as it is, whatever the ETA. In a pass of updateFlightStatuses of part_000 over a
  table with distinct leg ids, a leg for which fetchFlightStatus returns null has the same
  row after the pass, whatever its ETA.
\<close>

theorem unavailable_result_policy:
  "(flight guest \<noteq> [] \<and> truthy (airline guest) \<and> truthy (origin guest) \<longrightarrow>
      (axios_get (guest_request api_key guest) \<in> {Rejected, Resolved NoBody} \<longrightarrow>
         refresh_guest_part002 api_key axios_get utc now guest
           = (if status guest = Some OnTime
                 \<and> date_less (column_date utc (eta guest)) (Some now)
              then guest\<lparr>status := Some Landed\<rparr> else guest))
      \<and> (axios_get (guest_request api_key guest) \<in> {Resolved NoList, Resolved (FlightList [])} \<longrightarrow>
            refresh_guest_part002 api_key axios_get utc now guest = guest))
   \<and> (distinct (map leg_id table) \<and> leg \<in> set table
        \<and> (\<forall>date. iso_date (driver_date utc (leg_eta leg)) = Inr date \<longrightarrow>
              fst (fetchFlightStatus_part000 api_key axios_get (flight_number leg)
                     (leg_airline leg) date) = Inr None) \<longrightarrow>
        leg \<in> set (table_after (updateFlightStatuses_part000 api_key axios_get utc table)))"
  using refresh_guest_raised_or_empty [of guest axios_get api_key utc now]
    updateFlightStatuses_part000_keeps_null [of table leg utc api_key axios_get]
  by blast

theorem unavailable_result_policy_witness:
  "status (refresh_guest_part002 (Some ''key'') (\<lambda>r. Rejected) utc_zone 2000
             (sample_guest 1 ''100'' ''BA'' 1000))
     = Some Landed
   \<and> status (refresh_guest_part002 (Some ''key'') (\<lambda>r. Rejected) utc_zone 2000
               (sample_guest 1 ''100'' ''BA'' 3000))
     = Some OnTime
   \<and> refresh_guest_part002 (Some ''key'') (\<lambda>r. Resolved NoList) utc_zone 2000
        (sample_guest 1 ''100'' ''BA'' 1000)
     = sample_guest 1 ''100'' ''BA'' 1000
   \<and> sample_leg 2 ''200'' 1000 OnTime
       \<in> set (table_after (updateFlightStatuses_part000 (Some ''key'') (\<lambda>r. Rejected) utc_zone
                 [sample_leg 2 ''200'' 1000 OnTime]))"
proof -
  have h: "flight (sample_guest 1 ''100'' ''BA'' t) \<noteq> []
      \<and> truthy (airline (sample_guest 1 ''100'' ''BA'' t))
      \<and> truthy (origin (sample_guest 1 ''100'' ''BA'' t))" for t
    by (simp add: sample_guest_def truthy_def)
  have l: "distinct (map leg_id [sample_leg 2 ''200'' 1000 OnTime])
      \<and> sample_leg 2 ''200'' 1000 OnTime \<in> set [sample_leg 2 ''200'' 1000 OnTime]
      \<and> (\<forall>date. iso_date (driver_date utc_zone (leg_eta (sample_leg 2 ''200'' 1000 OnTime)))
                   = Inr date \<longrightarrow>
             fst (fetchFlightStatus_part000 (Some ''key'') (\<lambda>r. Rejected)
                    (flight_number (sample_leg 2 ''200'' 1000 OnTime))
                    (leg_airline (sample_leg 2 ''200'' 1000 OnTime)) date) = Inr None)"
    by (simp add: fetchFlightStatus_part000_def fetch_try_def)
  show ?thesis
    using unavailable_result_policy [of "sample_guest 1 ''100'' ''BA'' 1000" "\<lambda>r. Rejected"
          "Some ''key''" utc_zone 2000 "[sample_leg 2 ''200'' 1000 OnTime]"
          "sample_leg 2 ''200'' 1000 OnTime"]
      unavailable_result_policy [of "sample_guest 1 ''100'' ''BA'' 3000" "\<lambda>r. Rejected"
          "Some ''key''" utc_zone 2000 "[]" "sample_leg 2 ''200'' 1000 OnTime"]
      unavailable_result_policy [of "sample_guest 1 ''100'' ''BA'' 1000" "\<lambda>r. Resolved NoList"
          "Some ''key''" utc_zone 2000 "[]" "sample_leg 2 ''200'' 1000 OnTime"]
      h [of 1000] h [of 3000] l
    by (simp add: sample_guest_def date_less_def column_date_def driver_date_def time_clip_def
        max_time_def)
qed

subsection \<open>Terminal statuses\<close>

text \<open>
  Against C3 as stated. In the refresh on a list read of part_002, a guest that is Landed
  and whose flight the provider reports as cancelled becomes Cancelled.
\<close>

theorem refresh_guest_terminal_counterexample:
  "status ((sample_guest 1 ''100'' ''BA'' 1000)\<lparr>status := Some Landed\<rparr>) = Some Landed
   \<and> status (refresh_guest_part002 (Some ''key'') (answers ''cancelled'') utc_zone 2000
               ((sample_guest 1 ''100'' ''BA'' 1000)\<lparr>status := Some Landed\<rparr>))
       = Some Cancelled"
  by (simp add: refresh_guest_part002_def refresh_try_part002_def arrival_status_def sample_guest_def
      answers_def truthy_def)

text \<open>
  C3, as the code has it. In a pass of updateFlightStatuses of part_000 over a table with
  distinct leg ids, a leg whose status is Landed or Cancelled is not looked up, and its row
  is the same after the pass, whatever the provider answers; the pass changes no id. The
  refresh on a list read of part_002 reads no status before it looks a guest up: when the
  provider answers with a flight, it writes over the current status, whatever that is,
  Cancelled for a \<open>cancelled\<close> flight and Landed for a \<open>landed\<close> one; for
  an \<open>active\<close> or \<open>scheduled\<close> flight with an arrival, Delayed when both
  its arrival times are valid dates and the estimated one (the scheduled one when there is
  no estimate) is later than the scheduled one, and otherwise, as for every other vendor
  status, Landed when the ETA of the guest is a date in the past and On Time when it is
  not. An \<open>active\<close> or \<open>scheduled\<close> flight with no arrival raises, and
  the row is treated as in the fallback: Landed when it is On Time with an ETA in the past,
  kept otherwise.
\<close>

theorem terminal_status_policy:
  "(distinct (map leg_id table) \<and> leg \<in> set table
      \<and> (leg_status leg = Landed \<or> leg_status leg = Cancelled) \<longrightarrow>
      map leg_id (table_after (updateFlightStatuses_part000 api_key axios_get utc table))
        = map leg_id table
      \<and> leg \<in> set (table_after (updateFlightStatuses_part000 api_key axios_get utc table))
      \<and> leg_id leg
          \<notin> fst ` set (lookups (updateFlightStatuses_part000 api_key axios_get utc table)))
   \<and> (flight guest \<noteq> [] \<and> truthy (airline guest) \<and> truthy (origin guest)
        \<and> axios_get (guest_request api_key guest) = Resolved (FlightList (entry # rest)) \<longrightarrow>
        (flight_status entry = Some ''cancelled'' \<longrightarrow>
           refresh_guest_part002 api_key axios_get utc now guest
             = guest\<lparr>status := Some Cancelled\<rparr>)
        \<and> (flight_status entry = Some ''landed'' \<longrightarrow>
              refresh_guest_part002 api_key axios_get utc now guest
                = guest\<lparr>status := Some Landed\<rparr>)
        \<and> (flight_status entry \<notin> {Some ''cancelled'', Some ''landed'', Some ''active'',
                                     Some ''scheduled''} \<longrightarrow>
              refresh_guest_part002 api_key axios_get utc now guest
                = guest\<lparr>status := Some (if date_less (column_date utc (eta guest)) (Some now)
                                         then Landed else OnTime)\<rparr>)
        \<and> (flight_status entry \<in> {Some ''active'', Some ''scheduled''} \<longrightarrow>
              (\<forall>arr. arrival entry = Some arr \<longrightarrow>
                 refresh_guest_part002 api_key axios_get utc now guest
                   = guest\<lparr>status := Some
                       (if date_less (field_date (scheduled arr))
                             (field_date (if field_truthy (estimated arr) then estimated arr
                                          else scheduled arr))
                        then Delayed
                        else if date_less (column_date utc (eta guest)) (Some now) then Landed
                        else OnTime)\<rparr>)
              \<and> (arrival entry = None \<longrightarrow>
                    refresh_guest_part002 api_key axios_get utc now guest
                      = (if date_less (column_date utc (eta guest)) (Some now)
                            \<and> status guest = Some OnTime
                         then guest\<lparr>status := Some Landed\<rparr> else guest))))"
proof -
  have "(flight_status entry = Some ''cancelled'' \<longrightarrow>
           refresh_guest_part002 api_key axios_get utc now guest
             = guest\<lparr>status := Some Cancelled\<rparr>)
        \<and> (flight_status entry = Some ''landed'' \<longrightarrow>
              refresh_guest_part002 api_key axios_get utc now guest
                = guest\<lparr>status := Some Landed\<rparr>)
        \<and> (flight_status entry \<notin> {Some ''cancelled'', Some ''landed'', Some ''active'',
                                     Some ''scheduled''} \<longrightarrow>
              refresh_guest_part002 api_key axios_get utc now guest
                = guest\<lparr>status := Some (if date_less (column_date utc (eta guest)) (Some now)
                                         then Landed else OnTime)\<rparr>)
        \<and> (flight_status entry \<in> {Some ''active'', Some ''scheduled''} \<longrightarrow>
              (\<forall>arr. arrival entry = Some arr \<longrightarrow>
                 refresh_guest_part002 api_key axios_get utc now guest
                   = guest\<lparr>status := Some
                       (if date_less (field_date (scheduled arr))
                             (field_date (if field_truthy (estimated arr) then estimated arr
                                          else scheduled arr))
                        then Delayed
                        else if date_less (column_date utc (eta guest)) (Some now) then Landed
                        else OnTime)\<rparr>)
              \<and> (arrival entry = None \<longrightarrow>
                    refresh_guest_part002 api_key axios_get utc now guest
                      = (if date_less (column_date utc (eta guest)) (Some now)
                            \<and> status guest = Some OnTime
                         then guest\<lparr>status := Some Landed\<rparr> else guest)))"
    if h: "flight guest \<noteq> []" "truthy (airline guest)" "truthy (origin guest)"
      "axios_get (guest_request api_key guest) = Resolved (FlightList (entry # rest))"
  proof -
    note r = refresh_guest_answered [where guest = guest and axios_get = axios_get
        and api_key = api_key and entry = entry and rest = rest and utc = utc and now = now]
    show ?thesis
      unfolding r [OF h]
      using arrival_status_cases [of entry]
      by (auto simp del: insert_iff)
  qed
  then show ?thesis
    using updateFlightStatuses_part000_terminal [of table leg api_key axios_get utc] by blast
qed

theorem terminal_status_policy_witness:
  "table_after (updateFlightStatuses_part000 (Some ''key'') (answers ''cancelled'') utc_zone
       [sample_leg 1 ''100'' 1000 Landed, sample_leg 2 ''200'' 1000 OnTime])
     = [sample_leg 1 ''100'' 1000 Landed, sample_leg 2 ''200'' 1000 Cancelled]
   \<and> sample_leg 1 ''100'' 1000 Landed
       \<in> set (table_after (updateFlightStatuses_part000 (Some ''key'') (answers ''cancelled'')
                 utc_zone [sample_leg 1 ''100'' 1000 Landed, sample_leg 2 ''200'' 1000 OnTime]))
   \<and> 1 \<notin> fst ` set (lookups (updateFlightStatuses_part000 (Some ''key'') (answers ''cancelled'')
                 utc_zone [sample_leg 1 ''100'' 1000 Landed, sample_leg 2 ''200'' 1000 OnTime]))
   \<and> refresh_guest_part002 (Some ''key'') (answers ''landed'') utc_zone 2000
        ((sample_guest 1 ''100'' ''BA'' 3000)\<lparr>status := Some Cancelled\<rparr>)
       = (sample_guest 1 ''100'' ''BA'' 3000)\<lparr>status := Some Landed\<rparr>"
proof -
  let ?T = "[sample_leg 1 ''100'' 1000 Landed, sample_leg 2 ''200'' 1000 OnTime]"
  let ?g = "(sample_guest 1 ''100'' ''BA'' 3000)\<lparr>status := Some Cancelled\<rparr>"
  let ?e = "\<lparr>flight_status = Some ''landed'', departure = None, arrival = None\<rparr>"
  have h: "distinct (map leg_id ?T) \<and> sample_leg 1 ''100'' 1000 Landed \<in> set ?T
      \<and> (leg_status (sample_leg 1 ''100'' 1000 Landed) = Landed
          \<or> leg_status (sample_leg 1 ''100'' 1000 Landed) = Cancelled)"
    by (simp add: sample_leg_def)
  have g: "flight ?g \<noteq> [] \<and> truthy (airline ?g) \<and> truthy (origin ?g)
      \<and> answers ''landed'' (guest_request (Some ''key'') ?g) = Resolved (FlightList (?e # []))
      \<and> flight_status ?e = Some ''landed''"
    by (simp add: sample_guest_def truthy_def answers_def)
  have t: "table_after (updateFlightStatuses_part000 (Some ''key'') (answers ''cancelled'')
       utc_zone ?T)
     = [sample_leg 1 ''100'' 1000 Landed, sample_leg 2 ''200'' 1000 Cancelled]"
    by (simp add: updateFlightStatuses_part000_def select_open_legs_def terminal_def
        sample_leg_def answers_def fetchFlightStatus_part000_def fetch_try_def
        status_of_flight_def update_leg_status_def iso_date_def driver_date_def time_clip_def
        max_time_def)
  from terminal_status_policy [where table = ?T and leg = "sample_leg 1 ''100'' 1000 Landed"
      and api_key = "Some ''key''" and axios_get = "answers ''cancelled''" and utc = utc_zone] h
  have "sample_leg 1 ''100'' 1000 Landed
       \<in> set (table_after (updateFlightStatuses_part000 (Some ''key'') (answers ''cancelled'')
                 utc_zone ?T))
     \<and> leg_id (sample_leg 1 ''100'' 1000 Landed)
       \<notin> fst ` set (lookups (updateFlightStatuses_part000 (Some ''key'') (answers ''cancelled'')
                 utc_zone ?T))"
    by blast
  moreover from terminal_status_policy [where guest = ?g and api_key = "Some ''key''"
      and axios_get = "answers ''landed''" and utc = utc_zone and entry = ?e and rest = "[]"
      and now = 2000] g
  have "refresh_guest_part002 (Some ''key'') (answers ''landed'') utc_zone 2000 ?g
       = ?g\<lparr>status := Some Landed\<rparr>"
    by blast
  ultimately show ?thesis using t by (simp add: sample_leg_def)
qed

subsection \<open>The legs a pass looks up\<close>

text \<open>
  Against C9 as stated. In part_001 a pass run at time 1000 makes no request for a leg that
  is On Time and whose ETA is ten days later.
\<close>

theorem updateFlightStatuses_part001_counterexample:
  "leg_status (sample_leg 2 ''200'' 864000000 OnTime) = OnTime
   \<and> lookups (updateFlightStatuses_part001 (Some ''key'') (answers ''active'') utc_zone 1000
               [sample_leg 2 ''200'' 864000000 OnTime]) = []
   \<and> table_after (updateFlightStatuses_part001 (Some ''key'') (answers ''active'') utc_zone 1000
               [sample_leg 2 ''200'' 864000000 OnTime])
       = [sample_leg 2 ''200'' 864000000 OnTime]"
  by (simp add: updateFlightStatuses_part001_def select_open_legs_today_def sample_leg_def
      sql_date_def utc_day_def ms_per_day_def terminal_def)

text \<open>
  C9, as the code has it. Take a table in which every leg that is neither Landed nor
  Cancelled has an ETA that the driver hands over as a valid Date. A pass of
  updateFlightStatuses of part_000 sends exactly one provider request for each of those
  legs, in the order of the rows, with the leg's airline and flight number and the date of
  its ETA, whatever that date is, and it does not throw. A pass of part_001 sends one for
  each of those legs whose ETA falls on the date of the pass when the credential is set,
  and none otherwise.
\<close>

theorem reconciliation_pass_coverage:
  assumes "\<forall>leg \<in> set table. leg_status leg \<noteq> Landed \<and> leg_status leg \<noteq> Cancelled \<longrightarrow>
             driver_date utc (leg_eta leg) \<noteq> None"
  shows "lookups (updateFlightStatuses_part000 api_key axios_get utc table)
           = map (\<lambda>fl. (leg_id fl,
                         \<lparr>access_key = api_key,
                          flight_iata = js_string (leg_airline fl) @ flight_number fl,
                          flight_date = Some (utc_day (utc (leg_eta fl))), limit = None\<rparr>))
               (filter (\<lambda>fl. leg_status fl \<noteq> Landed \<and> leg_status fl \<noteq> Cancelled) table)
       \<and> raised (updateFlightStatuses_part000 api_key axios_get utc table) = None
       \<and> lookups (updateFlightStatuses_part001 api_key axios_get utc now table)
           = (if truthy api_key
              then map (\<lambda>fl. (leg_id fl,
                              \<lparr>access_key = api_key,
                               flight_iata = js_string (leg_airline fl) @ flight_number fl,
                               flight_date = Some (utc_day (utc (leg_eta fl))), limit = None\<rparr>))
                     (filter (\<lambda>fl. leg_status fl \<noteq> Landed \<and> leg_status fl \<noteq> Cancelled
                                   \<and> sql_date (leg_eta fl) = utc_day now) table)
              else [])
       \<and> raised (updateFlightStatuses_part001 api_key axios_get utc now table) = None"
proof -
  have a: "\<forall>fl \<in> set (select_open_legs table). driver_date utc (leg_eta fl) \<noteq> None"
    using assms by (simp add: select_open_legs_def terminal_def)
  have b: "\<forall>fl \<in> set (select_open_legs_today (utc_day now) table).
             driver_date utc (leg_eta fl) \<noteq> None"
    using assms by (simp add: select_open_legs_today_def terminal_def)
  have ta: "takeWhile (\<lambda>fl. driver_date utc (leg_eta fl) \<noteq> None) (select_open_legs table)
              = select_open_legs table"
    using a by (simp add: takeWhile_eq_all_conv)
  have tb: "takeWhile (\<lambda>fl. driver_date utc (leg_eta fl) \<noteq> None)
              (select_open_legs_today (utc_day now) table)
              = select_open_legs_today (utc_day now) table"
    using b by (simp add: takeWhile_eq_all_conv)
  note p0 = updateFlightStatuses_part000_lookups [of api_key axios_get utc table, unfolded ta]
  note p1 = updateFlightStatuses_part001_lookups [of api_key axios_get utc now table, unfolded tb]
  from p0 a have r: "raised (updateFlightStatuses_part000 api_key axios_get utc table) = None"
    by presburger
  from p0 have l0: "lookups (updateFlightStatuses_part000 api_key axios_get utc table)
     = map (\<lambda>fl. (leg_id fl, fetch_request api_key (flight_number fl) (leg_airline fl)
                                (utc_day (utc (leg_eta fl)))))
         (select_open_legs table)" ..
  show ?thesis
    using l0 r p1
    by (simp add: fetch_request_def select_open_legs_def select_open_legs_today_def
        terminal_def)
qed

theorem reconciliation_pass_coverage_witness:
  "map fst (lookups (updateFlightStatuses_part000 (Some ''key'') (answers ''active'') utc_zone
       [sample_leg 1 ''100'' 1000 Landed, sample_leg 2 ''200'' 1000 OnTime,
        sample_leg 3 ''300'' 864000000 Delayed]))
     = [2, 3]
   \<and> map fst (lookups (updateFlightStatuses_part001 (Some ''key'') (answers ''active'') utc_zone
       2000
       [sample_leg 1 ''100'' 1000 Landed, sample_leg 2 ''200'' 1000 OnTime,
        sample_leg 3 ''300'' 864000000 Delayed]))
     = [2]"
proof -
  let ?T = "[sample_leg 1 ''100'' 1000 Landed, sample_leg 2 ''200'' 1000 OnTime,
        sample_leg 3 ''300'' 864000000 Delayed]"
  have h: "\<forall>leg \<in> set ?T. leg_status leg \<noteq> Landed \<and> leg_status leg \<noteq> Cancelled \<longrightarrow>
             driver_date utc_zone (leg_eta leg) \<noteq> None"
    by (simp add: sample_leg_def driver_date_def time_clip_def max_time_def)
  from reconciliation_pass_coverage [OF h, of "Some ''key''" "answers ''active''" 2000]
  show ?thesis
    by (simp add: sample_leg_def truthy_def sql_date_def utc_day_def ms_per_day_def comp_def)
qed

subsection \<open>An ETA that is no valid Date\<close>

text \<open>
  A pass of updateFlightStatuses of part_000 sends its requests for the legs that are neither
  Landed nor Cancelled in the order of the rows, up to the first whose ETA the driver hands
  over as an Invalid Date. There \<open>toISOString\<close> throws a RangeError, which ends the
  pass: the legs after it are not looked up.
\<close>

theorem updateFlightStatuses_part000_range_error:
  "lookups (updateFlightStatuses_part000 api_key axios_get utc table)
     = map (\<lambda>fl. (leg_id fl, fetch_request api_key (flight_number fl) (leg_airline fl)
                                (utc_day (utc (leg_eta fl)))))
         (takeWhile (\<lambda>fl. driver_date utc (leg_eta fl) \<noteq> None) (select_open_legs table))
   \<and> raised (updateFlightStatuses_part000 api_key axios_get utc table)
       = (if \<forall>fl \<in> set (select_open_legs table). driver_date utc (leg_eta fl) \<noteq> None
          then None else Some RangeError)"
  by (rule updateFlightStatuses_part000_lookups)

theorem updateFlightStatuses_part000_range_error_witness:
  "lookups (updateFlightStatuses_part000 (Some ''key'') (answers ''active'') utc_zone
       [sample_leg 1 ''100'' 8640000000000001 OnTime, sample_leg 2 ''200'' 1000 OnTime]) = []
   \<and> raised (updateFlightStatuses_part000 (Some ''key'') (answers ''active'') utc_zone
       [sample_leg 1 ''100'' 8640000000000001 OnTime, sample_leg 2 ''200'' 1000 OnTime])
       = Some RangeError"
  using updateFlightStatuses_part000_range_error [of "Some ''key''" "answers ''active''" utc_zone
      "[sample_leg 1 ''100'' 8640000000000001 OnTime, sample_leg 2 ''200'' 1000 OnTime]"]
  by (simp add: select_open_legs_def terminal_def sample_leg_def driver_date_def time_clip_def
      max_time_def)

section \<open>Properties of the replacement of a guest's legs (part_000)\<close>

lemma write_db_in_tx:
  "in_tx s = Some w \<Longrightarrow> write_db f s = Inr s' \<Longrightarrow>
   committed s' = committed s \<and> leg_seq s' = leg_seq s \<and> (\<exists>w'. f w = Inr w' \<and> in_tx s' = Some w')"
  by (auto simp: write_db_def split: sum.splits)

lemma exec_write_in_tx:
  "is_write q \<Longrightarrow> in_tx s = Some w \<Longrightarrow> exec q s = Inr s' \<Longrightarrow>
   committed s' = committed s \<and> (\<exists>w'. in_tx s' = Some w')"
  by (cases q) (auto dest: write_db_in_tx split: sum.splits)

lemma run_writes_trace:
  "list_all is_write qs \<Longrightarrow> in_tx s = Some w \<Longrightarrow> run fails k qs s = (r, trace) \<Longrightarrow>
   \<forall>t \<in> set trace. committed t = committed s \<and> in_tx t \<noteq> None"
proof (induction qs arbitrary: k s w r trace)
  case Nil
  then show ?case by simp
next
  case (Cons q qs)
  show ?case
  proof (cases "fails k")
    case True
    with Cons.prems show ?thesis by simp
  next
    case False
    show ?thesis
    proof (cases "exec q s")
      case (Inl e)
      with False Cons.prems show ?thesis by simp
    next
      case (Inr s')
      obtain r' tr' where run': "run fails (k + 1) qs s' = (r', tr')" by (cases "run fails (k + 1) qs s'")
      from Cons.prems(1) have wq: "is_write q" and wqs: "list_all is_write qs" by simp_all
      from exec_write_in_tx [OF wq Cons.prems(2) Inr]
      obtain w' where s': "committed s' = committed s" "in_tx s' = Some w'" by blast
      from Cons.IH [OF wqs s'(2) run'] s'
      have "\<forall>t \<in> set tr'. committed t = committed s \<and> in_tx t \<noteq> None" by simp
      moreover from Cons.prems(3) False Inr run' have "trace = s' # tr'" by simp
      ultimately show ?thesis using s' by simp
    qed
  qed
qed

lemma run_append:
  "run fails k (qs @ qs') s =
     (case run fails k qs s of
        (Some e, trace) \<Rightarrow> (Some e, trace)
      | (None, trace) \<Rightarrow>
          (case run fails (k + length qs) qs' (last (s # trace)) of
             (r, trace') \<Rightarrow> (r, trace @ trace')))"
proof (induction qs arbitrary: k s)
  case Nil
  show ?case by (simp split: prod.splits)
next
  case (Cons q qs)
  show ?case
  proof (cases "fails k")
    case True
    then show ?thesis by simp
  next
    case False
    show ?thesis
    proof (cases "exec q s")
      case (Inl e)
      with False show ?thesis by simp
    next
      case (Inr s')
      show ?thesis
        using False Inr Cons.IH [of "k + 1" s']
        by (auto split: prod.splits option.splits)
    qed
  qed
qed

lemma insert_leg_legs_of:
  "insert_leg new_id gid leg i w = Inr w' \<Longrightarrow>
   length (legs_of gid w') = Suc (length (legs_of gid w))"
  by (auto simp: insert_leg_def legs_of_def split: option.splits if_splits)

lemma run_inserts_legs_of:
  "in_tx s = Some w \<Longrightarrow> run fails k (insert_statements gid legs i) s = (None, trace) \<Longrightarrow>
   \<exists>w'. in_tx (last (s # trace)) = Some w'
        \<and> length (legs_of gid w') = length (legs_of gid w) + length legs"
proof (induction legs arbitrary: k s w i trace)
  case Nil
  then show ?case by simp
next
  case (Cons leg legs)
  from Cons.prems(2) have nf: "\<not> fails k" by (auto split: if_splits)
  from Cons.prems(2) nf obtain s' where ex: "exec (InsertLeg gid leg i) s = Inr s'"
    by (cases "exec (InsertLeg gid leg i) s") auto
  obtain r' tr' where run': "run fails (k + 1) (insert_statements gid legs (i + 1)) s' = (r', tr')"
    by (cases "run fails (k + 1) (insert_statements gid legs (i + 1)) s'")
  from Cons.prems(2) nf ex run' have r': "r' = None" and tr: "trace = s' # tr'" by simp_all
  from ex obtain s'' where w: "write_db (insert_leg (leg_seq s) gid leg i) s = Inr s''"
    and s': "s' = s''\<lparr>leg_seq := leg_seq s + 1\<rparr>"
    by (auto split: sum.splits)
  from write_db_in_tx [OF Cons.prems(1) w]
  obtain w1 where w1: "insert_leg (leg_seq s) gid leg i w = Inr w1" "in_tx s'' = Some w1" by blast
  have tx: "in_tx s' = Some w1" using s' w1(2) by simp
  from Cons.IH [OF tx run' [unfolded r']]
  obtain w' where "in_tx (last (s' # tr')) = Some w'"
    "length (legs_of gid w') = length (legs_of gid w1) + length legs" by blast
  then show ?case
    using insert_leg_legs_of [OF w1(1)] tr by auto
qed

lemma insert_statements_writes: "list_all is_write (insert_statements gid legs i)"
  by (induction legs arbitrary: i) simp_all

lemma put_statements_split:
  "put_statements gid nm legs
     = (UpdateGuest gid nm (in_destination (last legs)) (in_eta (last legs))
        # DeleteLegs gid # insert_statements gid legs 0) @ [Commit]"
  by (simp add: put_statements_def)

lemma writes_of_put:
  "list_all is_write (UpdateGuest gid nm dest t # DeleteLegs gid # insert_statements gid legs 0)"
  by (simp add: insert_statements_writes)

text \<open>
  The run of the writes of a request that went through: the legs of the guest in the
  session's copy are as many as the legs of the body.
\<close>

lemma run_writes_legs_of:
  assumes "in_tx s = Some w"
    and "run fails k (UpdateGuest gid nm dest t # DeleteLegs gid # insert_statements gid legs 0) s
           = (None, trace)"
  shows "\<exists>w'. in_tx (last (s # trace)) = Some w' \<and> length (legs_of gid w') = length legs"
proof -
  from assms(2) have nf: "\<not> fails k" by (auto split: if_splits)
  from assms(2) nf obtain s1 where e1: "exec (UpdateGuest gid nm dest t) s = Inr s1"
    by (cases "exec (UpdateGuest gid nm dest t) s") auto
  obtain r1 tr1 where run1:
    "run fails (k + 1) (DeleteLegs gid # insert_statements gid legs 0) s1 = (r1, tr1)"
    by (cases "run fails (k + 1) (DeleteLegs gid # insert_statements gid legs 0) s1")
  from assms(2) nf e1 run1 have r1: "r1 = None" and tr: "trace = s1 # tr1" by simp_all
  from e1 have "write_db (update_guest_entry gid nm dest t) s = Inr s1" by simp
  from write_db_in_tx [OF assms(1) this] obtain w1 where w1: "in_tx s1 = Some w1" by blast
  from run1 r1 have nf1: "\<not> fails (k + 1)" by (auto split: if_splits)
  from run1 r1 nf1 obtain s2 where e2: "exec (DeleteLegs gid) s1 = Inr s2"
    by (cases "exec (DeleteLegs gid) s1") auto
  obtain r2 tr2 where run2: "run fails (k + 1 + 1) (insert_statements gid legs 0) s2 = (r2, tr2)"
    by (cases "run fails (k + 1 + 1) (insert_statements gid legs 0) s2")
  from run1 r1 nf1 e2 run2 have r2: "r2 = None" and tr1: "tr1 = s2 # tr2" by simp_all
  from e2 have "write_db (delete_legs gid) s1 = Inr s2" by simp
  from write_db_in_tx [OF w1 this] obtain w2 where
    w2: "delete_legs gid w1 = Inr w2" "in_tx s2 = Some w2" by blast
  have empty: "legs_of gid w2 = []"
    using w2(1) by (auto simp: delete_legs_def legs_of_def filter_empty_conv)
  from run_inserts_legs_of [OF w2(2) run2 [unfolded r2]] empty
  obtain w' where "in_tx (last (s2 # tr2)) = Some w'" "length (legs_of gid w') = length legs"
    by auto
  then show ?thesis using tr tr1 by auto
qed

lemma update_guest_entry_ids:
  assumes "update_guest_entry gid nm dest t w = Inr w'"
  shows "g_id ` set (guests w') = g_id ` set (guests w)"
proof -
  have "map g_id (map (\<lambda>g. if g_id g = gid
                              then g\<lparr>g_name := n, final_destination := dest, final_eta := t\<rparr>
                              else g) xs) = map g_id xs" for n xs
    by (induction xs) auto
  with assms have "map g_id (guests w') = map g_id (guests w)"
    by (auto simp: update_guest_entry_def split: if_splits option.splits)
  then show ?thesis by (metis list.set_map)
qed

lemma run_writes_needs_guest:
  assumes "in_tx s = Some w" and "legs \<noteq> []"
    and "run fails k (UpdateGuest gid nm dest t # DeleteLegs gid # insert_statements gid legs 0) s
           = (None, trace)"
  shows "gid \<in> g_id ` set (guests w)"
proof -
  from assms(2) obtain leg rest where legs: "legs = leg # rest" by (cases legs) auto
  from assms(3) have nf: "\<not> fails k" by (auto split: if_splits)
  from assms(3) nf obtain s1 where e1: "exec (UpdateGuest gid nm dest t) s = Inr s1"
    by (cases "exec (UpdateGuest gid nm dest t) s") auto
  obtain r1 tr1 where run1:
    "run fails (k + 1) (DeleteLegs gid # insert_statements gid legs 0) s1 = (r1, tr1)"
    by (cases "run fails (k + 1) (DeleteLegs gid # insert_statements gid legs 0) s1")
  from assms(3) nf e1 run1 have r1: "r1 = None" by simp
  from e1 have "write_db (update_guest_entry gid nm dest t) s = Inr s1" by simp
  from write_db_in_tx [OF assms(1) this] obtain w1 where
    w1: "update_guest_entry gid nm dest t w = Inr w1" "in_tx s1 = Some w1" by blast
  from run1 r1 have nf1: "\<not> fails (k + 1)" by (auto split: if_splits)
  from run1 r1 nf1 obtain s2 where e2: "exec (DeleteLegs gid) s1 = Inr s2"
    by (cases "exec (DeleteLegs gid) s1") auto
  obtain r2 tr2 where run2: "run fails (k + 1 + 1) (insert_statements gid legs 0) s2 = (r2, tr2)"
    by (cases "run fails (k + 1 + 1) (insert_statements gid legs 0) s2")
  from run1 r1 nf1 e2 run2 have r2: "r2 = None" by simp
  from e2 have "write_db (delete_legs gid) s1 = Inr s2" by simp
  from write_db_in_tx [OF w1(2) this] obtain w2 where
    w2: "delete_legs gid w1 = Inr w2" "in_tx s2 = Some w2" by blast
  from run2 r2 have nf2: "\<not> fails (k + 1 + 1)" by (auto simp: legs split: if_splits)
  from run2 r2 nf2 obtain s3 where e3: "exec (InsertLeg gid leg 0) s2 = Inr s3"
    by (cases "exec (InsertLeg gid leg 0) s2") (auto simp: legs)
  then obtain s3' where "write_db (insert_leg (leg_seq s2) gid leg 0) s2 = Inr s3'"
    by (auto split: sum.splits)
  from write_db_in_tx [OF w2(2) this] obtain w3 where
    "insert_leg (leg_seq s2) gid leg 0 w2 = Inr w3" by blast
  then have "list_ex (\<lambda>g. g_id g = gid) (guests w2)"
    by (auto simp: insert_leg_def split: option.splits if_splits)
  then have "gid \<in> g_id ` set (guests w2)" by (auto simp: list_ex_iff)
  moreover have "guests w2 = guests w1" using w2(1) by (auto simp: delete_legs_def)
  ultimately show ?thesis using update_guest_entry_ids [OF w1(1)] by simp
qed

lemma put_guest_part000_unknown:
  assumes "in_tx s = None" and "gid \<notin> g_id ` set (guests (committed s))"
  shows "fst (fst (put_guest_part000 fails gid nm legs s)) = 500
       \<and> committed (last (snd (put_guest_part000 fails gid nm legs s))) = committed s"
proof (cases "fails 0")
  case True
  then show ?thesis by (simp add: put_guest_part000_def)
next
  case nf: False
  define s1 where "s1 = s\<lparr>in_tx := Some (committed s)\<rparr>"
  have ex_begin: "exec Begin s = Inr s1" using assms(1) by (simp add: s1_def)
  have s1: "in_tx s1 = Some (committed s)" "committed s1 = committed s" by (simp_all add: s1_def)
  show ?thesis
  proof (cases "legs = []")
    case True
    with nf ex_begin s1 show ?thesis by (simp add: put_guest_part000_def)
  next
    case ne: False
    define ws where "ws = UpdateGuest gid nm (in_destination (last legs)) (in_eta (last legs))
        # DeleteLegs gid # insert_statements gid legs 0"
    have ws: "list_all is_write ws" by (simp add: ws_def insert_statements_writes)
    obtain r tr where run_ws: "run fails (0 + 1) ws s1 = (r, tr)" by (cases "run fails (0 + 1) ws s1")
    have inv: "\<forall>t \<in> set tr. committed t = committed s \<and> in_tx t \<noteq> None"
      using run_writes_trace [OF ws s1(1) run_ws] s1(2) by simp
    have "r \<noteq> None"
    proof
      assume "r = None"
      with run_ws have "run fails (0 + 1) ws s1 = (None, tr)" by simp
      from run_writes_needs_guest [OF s1(1) ne this [unfolded ws_def]] assms(2) show False by simp
    qed
    then obtain e where r: "r = Some e" by auto
    have "run fails 0 (Begin # put_statements gid nm legs) s = (Some e, s1 # tr)"
      using nf ex_begin run_append [of fails "0 + 1" ws "[Commit]" s1] run_ws r
      by (simp add: put_statements_split ws_def [symmetric])
    then have "put_guest_part000 fails gid nm legs s
        = ((500, ErrorOf e), (s1 # tr) @ [(last (s # s1 # tr))\<lparr>in_tx := None\<rparr>])"
      using ne by (simp add: put_guest_part000_def)
    then show ?thesis using inv s1 by (auto simp: last_ConsR split: if_splits)
  qed
qed

text \<open>
  C6. PUT /api/guests/:id of part_000, run on a session with no open transaction. The
  trace holds the session after each statement and, on a failure, after the ROLLBACK.
  If the request fails at any statement (BEGIN, the update of the guest, the delete, any
  insert, COMMIT, or the read of the last leg of an empty list), the committed tables at
  the end are those before the request, and so are the committed tables after every
  statement. If it succeeds, the committed tables are those before the request after every
  statement but the COMMIT, the body had at least one leg, and the guest has as many legs
  as the body after the COMMIT. So a guest that had legs before the request has legs in
  the committed tables after every statement.
\<close>

theorem put_guest_atomic:
  assumes "in_tx s = None" and "put_guest_part000 fails gid nm legs s = (reply, trace)"
  shows "(fst reply \<noteq> 200 \<longrightarrow>
            trace \<noteq> [] \<and> committed (last trace) = committed s \<and> in_tx (last trace) = None
            \<and> (\<forall>t \<in> set trace. committed t = committed s))
       \<and> (fst reply = 200 \<longrightarrow>
            legs \<noteq> [] \<and> trace \<noteq> [] \<and> in_tx (last trace) = None
            \<and> length (legs_of gid (committed (last trace))) = length legs
            \<and> (\<forall>t \<in> set (butlast trace). committed t = committed s))
       \<and> (legs_of gid (committed s) \<noteq> [] \<longrightarrow>
            (\<forall>t \<in> set trace. legs_of gid (committed t) \<noteq> []))"
proof (cases "fails 0")
  case True
  with assms show ?thesis
    by (auto simp: put_guest_part000_def split: if_splits)
next
  case nf: False
  define s1 where "s1 = s\<lparr>in_tx := Some (committed s)\<rparr>"
  have ex_begin: "exec Begin s = Inr s1" using assms(1) by (simp add: s1_def)
  have s1: "in_tx s1 = Some (committed s)" "committed s1 = committed s" by (simp_all add: s1_def)
  show ?thesis
  proof (cases "legs = []")
    case True
    with assms nf ex_begin s1 show ?thesis
      by (auto simp: put_guest_part000_def)
  next
    case ne: False
    define ws where "ws = UpdateGuest gid nm (in_destination (last legs)) (in_eta (last legs))
        # DeleteLegs gid # insert_statements gid legs 0"
    have ws: "list_all is_write ws" by (simp add: ws_def insert_statements_writes)
    obtain r tr where run_ws: "run fails (0 + 1) ws s1 = (r, tr)" by (cases "run fails (0 + 1) ws s1")
    have inv: "\<forall>t \<in> set tr. committed t = committed s \<and> in_tx t \<noteq> None"
      using run_writes_trace [OF ws s1(1) run_ws] s1(2) by simp
    have whole: "run fails 0 (Begin # put_statements gid nm legs) s
        = (case (r, tr) of
             (Some e, trace) \<Rightarrow> (Some e, s1 # trace)
           | (None, trace) \<Rightarrow>
               (case run fails (0 + 1 + length ws) [Commit] (last (s1 # trace)) of
                  (r', trace') \<Rightarrow> (r', s1 # trace @ trace')))"
      using nf ex_begin run_append [of fails "0 + 1" ws "[Commit]" s1] run_ws
      by (simp add: put_statements_split ws_def [symmetric] split: prod.splits option.splits)
    show ?thesis
    proof (cases r)
      case (Some e)
      with whole assms(2) ne have "reply = (500, ErrorOf e)"
        and "trace = (s1 # tr) @ [(last (s # s1 # tr))\<lparr>in_tx := None\<rparr>]"
        by (auto simp: put_guest_part000_def)
      then show ?thesis using inv s1 by (auto simp: last_ConsR split: if_splits)
    next
      case None
      from run_writes_legs_of [OF s1(1) run_ws [unfolded None ws_def]]
      obtain w' where w': "in_tx (last (s1 # tr)) = Some w'" "length (legs_of gid w') = length legs"
        by blast
      have cl: "committed (last (s1 # tr)) = committed s" using inv s1 by auto
      show ?thesis
      proof (cases "fails (0 + 1 + length ws)")
        case True
        with whole None assms(2) ne have "reply = (500, ErrorOf DatabaseError)"
          and "trace = (s1 # tr) @ [(last (s # s1 # tr))\<lparr>in_tx := None\<rparr>]"
          by (auto simp: put_guest_part000_def)
        then show ?thesis using inv s1 cl by (auto simp: last_ConsR split: if_splits)
      next
        case False
        define s2 where "s2 = (last (s1 # tr))\<lparr>committed := w', in_tx := None\<rparr>"
        have "exec Commit (last (s1 # tr)) = Inr s2" using w'(1) by (simp add: s2_def)
        with whole None False assms(2) ne have "reply = (200, Success)"
          and "trace = (s1 # tr) @ [s2]"
          by (auto simp: put_guest_part000_def)
        moreover have "legs_of gid w' \<noteq> []" using w'(2) ne by auto
        ultimately show ?thesis using inv s1 w'(2) ne by (auto simp: s2_def)
      qed
    qed
  qed
qed

theorem put_guest_atomic_witness:
  "fst (put_guest_part000 (\<lambda>k. False) 1 (Some ''Ann'')
          [sample_input (Some ''LHR''), sample_input None] sample_session)
     = (500, ErrorOf DatabaseError)
   \<and> committed (last (snd (put_guest_part000 (\<lambda>k. False) 1 (Some ''Ann'')
          [sample_input (Some ''LHR''), sample_input None] sample_session)))
     = committed sample_session
   \<and> legs_of 1 (committed sample_session) = [sample_leg 1 ''100'' 1000 OnTime]
   \<and> fst (put_guest_part000 (\<lambda>k. k = 3) 1 (Some ''Ann'')
          [sample_input (Some ''LHR'')] sample_session)
     = (500, ErrorOf DatabaseError)
   \<and> committed (last (snd (put_guest_part000 (\<lambda>k. k = 3) 1 (Some ''Ann'')
          [sample_input (Some ''LHR'')] sample_session)))
     = committed sample_session"
proof -
  have h1: "in_tx sample_session = None" by (simp add: sample_session_def)
  have r: "fst (put_guest_part000 (\<lambda>k. False) 1 (Some ''Ann'')
              [sample_input (Some ''LHR''), sample_input None] sample_session)
            = (500, ErrorOf DatabaseError)"
    by (simp add: put_guest_part000_def put_statements_def sample_input_def sample_session_def
        sample_leg_def write_db_def update_guest_entry_def delete_legs_def insert_leg_def
        status_or_default_def truthy_def split: prod.splits)
  have r': "fst (put_guest_part000 (\<lambda>k. k = 3) 1 (Some ''Ann'')
              [sample_input (Some ''LHR'')] sample_session)
            = (500, ErrorOf DatabaseError)"
    by (simp add: put_guest_part000_def put_statements_def sample_input_def sample_session_def
        sample_leg_def write_db_def update_guest_entry_def delete_legs_def insert_leg_def
        status_or_default_def truthy_def split: prod.splits)
  have h3: "legs_of 1 (committed sample_session) = [sample_leg 1 ''100'' 1000 OnTime]"
    by (simp add: legs_of_def sample_session_def sample_leg_def)
  show ?thesis
    using put_guest_atomic [OF h1 prod.collapse [symmetric], of "\<lambda>k. False" 1 "Some ''Ann''"
        "[sample_input (Some ''LHR''), sample_input None]"]
      put_guest_atomic [OF h1 prod.collapse [symmetric], of "\<lambda>k. k = 3" 1 "Some ''Ann''"
        "[sample_input (Some ''LHR'')]"]
      r r' h3
    by simp
qed

section \<open>Properties of PUT and DELETE /api/guests/:id\<close>

lemma server2_unknown_guest:
  assumes "gid \<notin> id ` set table"
  shows "put_guest_server2 rejects gid b table
           = (if rejects then (500, ErrorMessage ''Failed to update guest'')
              else (404, ErrorMessage ''Guest not found''), table)
       \<and> delete_guest_server2 rejects gid table
           = (if rejects then (500, ErrorMessage ''Failed to delete guest'')
              else (404, ErrorMessage ''Guest not found''), table)"
proof -
  have none: "filter (\<lambda>g. id g = gid) table = []"
    using assms by (auto simp: filter_empty_conv)
  have all: "filter (\<lambda>g. id g \<noteq> gid) table = table"
    using assms by (auto simp: filter_id_conv)
  have ex: "\<not> list_ex (\<lambda>g. id g = gid) table"
    using assms by (auto simp: list_ex_iff)
  show ?thesis
    by (simp add: put_guest_server2_def delete_guest_server2_def update_returning_def
        delete_returning_def none all ex)
qed

text \<open>
  Against C8 as stated. DELETE /api/guests/:id of part_000, asked to delete a guest that
  does not exist,
  answers 200 with success and leaves the tables as they were.
\<close>

theorem delete_guest_part000_counterexample:
  "7 \<notin> g_id ` set (guests (committed sample_session))
   \<and> delete_guest_part000 False 7 (committed sample_session)
       = ((200, Success), committed sample_session)"
  by (simp add: delete_guest_part000_def sample_session_def sample_leg_def)

text \<open>
  C8, as the code has it. In the second half of server.js, for an id that no guest of the
  table has, the update and the delete answer 404 with the error \<open>Guest not found\<close>
  when the store answers the query, and 500 when it rejects it; neither answers with a
  success, and the table is left as it was. In part_000, for an id that no guest and no leg
  has, the delete answers 200 with success when the store answers the query, and leaves the
  tables as they were; the update of a guest that does not exist answers 500 (the list of
  legs is empty, or the store rejects a statement, the first insert at the latest, which
  has no guest to refer to) and leaves the committed tables as they were.
\<close>

theorem unknown_guest_replies:
  "(gid \<notin> id ` set table \<longrightarrow>
      put_guest_server2 rejects gid b table
        = (if rejects then (500, ErrorMessage ''Failed to update guest'')
           else (404, ErrorMessage ''Guest not found''), table)
      \<and> delete_guest_server2 rejects gid table
          = (if rejects then (500, ErrorMessage ''Failed to delete guest'')
             else (404, ErrorMessage ''Guest not found''), table))
   \<and> (gid \<notin> g_id ` set (guests d) \<and> gid \<notin> leg_guest_id ` set (flight_legs d) \<longrightarrow>
        delete_guest_part000 rejects gid d
          = (if rejects then (500, ErrorOf DatabaseError) else (200, Success), d))
   \<and> (in_tx s = None \<and> gid \<notin> g_id ` set (guests (committed s)) \<longrightarrow>
        fst (fst (put_guest_part000 fails gid nm legs s)) = 500
        \<and> committed (last (snd (put_guest_part000 fails gid nm legs s))) = committed s)"
proof -
  have del: "delete_guest_part000 rejects gid d
          = (if rejects then (500, ErrorOf DatabaseError) else (200, Success), d)"
    if "gid \<notin> g_id ` set (guests d)" "gid \<notin> leg_guest_id ` set (flight_legs d)"
  proof -
    have "filter (\<lambda>g. g_id g \<noteq> gid) (guests d) = guests d"
      using that(1) by (auto simp: filter_id_conv)
    moreover have "filter (\<lambda>fl. leg_guest_id fl \<noteq> gid) (flight_legs d) = flight_legs d"
      using that(2) by (auto simp: filter_id_conv)
    ultimately show ?thesis by (simp add: delete_guest_part000_def)
  qed
  have put: "fst (fst (put_guest_part000 fails gid nm legs s)) = 500
        \<and> committed (last (snd (put_guest_part000 fails gid nm legs s))) = committed s"
    if "in_tx s = None" "gid \<notin> g_id ` set (guests (committed s))"
    using that by (rule put_guest_part000_unknown)
  from del put show ?thesis
    using server2_unknown_guest [of gid table rejects b] by blast
qed

theorem unknown_guest_replies_witness:
  "put_guest_server2 False 7
     \<lparr>b_name = Some ''Bob'', b_flight = Some ''100'', b_airline = Some ''BA'',
      b_airlineName = None, b_origin = Some ''LHR'', b_eta = Some 1000, b_status = None,
      b_carAssigned = None\<rparr>
     [sample_guest 1 ''100'' ''BA'' 1000]
     = ((404, ErrorMessage ''Guest not found''), [sample_guest 1 ''100'' ''BA'' 1000])
   \<and> delete_guest_server2 False 7 [sample_guest 1 ''100'' ''BA'' 1000]
     = ((404, ErrorMessage ''Guest not found''), [sample_guest 1 ''100'' ''BA'' 1000])
   \<and> delete_guest_part000 False 7 (committed sample_session)
     = ((200, Success), committed sample_session)
   \<and> fst (fst (put_guest_part000 (\<lambda>k. False) 7 (Some ''Bob'') [sample_input (Some ''LHR'')]
                 sample_session)) = 500"
proof -
  have h: "7 \<notin> id ` set [sample_guest 1 ''100'' ''BA'' 1000]"
    by (simp add: sample_guest_def)
  have k: "7 \<notin> g_id ` set (guests (committed sample_session))
      \<and> 7 \<notin> leg_guest_id ` set (flight_legs (committed sample_session))"
    by (simp add: sample_session_def sample_leg_def)
  have t: "in_tx sample_session = None" by (simp add: sample_session_def)
  show ?thesis
    using unknown_guest_replies [of 7 "[sample_guest 1 ''100'' ''BA'' 1000]" False _
        "committed sample_session" sample_session "\<lambda>k. False" "Some ''Bob''"
        "[sample_input (Some ''LHR'')]"] h k t
    by simp
qed

section \<open>Properties of the car assignment (part_002, first half of server.js)\<close>

subsection \<open>The loops\<close>

lemma slice_take_drop: "slice i (i + n) xs = take n (drop i xs)"
  by (simp add: slice_def)

lemma chunk_loop_props:
  "chunk_loop gs i c = (cars, c') \<Longrightarrow>
     c' = c + length cars \<and> map fst cars = [c..<c + length cars]
     \<and> concat (map snd cars) = drop i gs
     \<and> (\<forall>car \<in> set cars. snd car \<noteq> [] \<and> length (snd car) \<le> capacity)"
proof (induction gs i c arbitrary: cars c' rule: chunk_loop.induct)
  case (1 flightGuests i carId)
  show ?case
  proof (cases "i < length flightGuests")
    case False
    with "1.prems" show ?thesis by (simp add: chunk_loop.simps [of flightGuests i carId])
  next
    case True
    obtain cs n where rec: "chunk_loop flightGuests (i + capacity) (carId + 1) = (cs, n)"
      by (cases "chunk_loop flightGuests (i + capacity) (carId + 1)")
    from "1.prems" True rec
    have cars: "cars = (carId, slice i (i + capacity) flightGuests) # cs" and c': "c' = n"
      by (simp_all add: chunk_loop.simps [of flightGuests i carId])
    from "1.IH" [OF True refl rec]
    have ih: "n = carId + 1 + length cs" "map fst cs = [carId + 1..<carId + 1 + length cs]"
      "concat (map snd cs) = drop (i + capacity) flightGuests"
      "\<forall>car \<in> set cs. snd car \<noteq> [] \<and> length (snd car) \<le> capacity"
      by simp_all
    have "take capacity (drop i flightGuests) @ drop (i + capacity) flightGuests
            = drop i flightGuests"
      by (metis add.commute append_take_drop_id drop_drop)
    moreover have "take capacity (drop i flightGuests) \<noteq> []"
      using True by (simp add: capacity_def)
    moreover have "[carId..<Suc (carId + length cs)] = carId # [Suc carId..<Suc (carId + length cs)]"
      by (rule upt_conv_Cons) simp
    ultimately show ?thesis
      using ih cars c' by (simp add: slice_take_drop)
  qed
qed

lemma push_guest_keys:
  "map fst (push_guest g fg)
     = (if flight g \<in> set (map fst fg) then map fst fg else map fst fg @ [flight g])"
  by (induction fg) (force+)

lemma push_guest_key_set: "fst ` set (push_guest g fg) = insert (flight g) (fst ` set fg)"
  using push_guest_keys [of g fg]
  by (metis (no_types, lifting) insert_absorb list.set_map list.simps(15) set_append
      Un_insert_right sup_bot.right_neutral empty_set)

lemma assoc_list_eq:
  "distinct (map fst xs) \<Longrightarrow> xs = map (\<lambda>k. (k, members_of xs k)) (map fst xs)"
proof (induction xs)
  case Nil
  show ?case by simp
next
  case (Cons p xs)
  obtain k m where p: "p = (k, m)" by (cases p)
  from Cons.prems have d: "distinct (map fst xs)" and nk: "k \<notin> fst ` set xs" by (simp_all add: p)
  have "members_of (p # xs) k' = members_of xs k'" if "k' \<in> fst ` set xs" for k'
    using that nk by (auto simp: members_of_def p)
  then have "map (\<lambda>k'. (k', members_of (p # xs) k')) (map fst xs)
          = map (\<lambda>k'. (k', members_of xs k')) (map fst xs)"
    by (intro map_cong) auto
  also have "\<dots> = xs" using Cons.IH [OF d] by simp
  finally have "map (\<lambda>k'. (k', members_of (p # xs) k')) (map fst xs) = xs" .
  moreover have "members_of (p # xs) k = m" by (simp add: members_of_def p)
  ultimately show ?case by (simp add: p)
qed

lemma push_guest_members:
  "distinct (map fst fg) \<Longrightarrow>
   members_of (push_guest g fg) k = members_of fg k @ (if k = flight g then [g] else [])"
proof (induction fg)
  case Nil
  show ?case by (simp add: members_of_def)
next
  case (Cons p fg)
  obtain k' m where p: "p = (k', m)" by (cases p)
  from Cons.prems have d: "distinct (map fst fg)" and nk: "k' \<notin> fst ` set fg" by (simp_all add: p)
  have none: "map_of fg k' = None" using nk by (simp add: map_of_eq_None_iff)
  show ?case
    using Cons.IH [OF d] none by (auto simp: p members_of_def)
qed

lemma first_occurrences_filter:
  "filter P (filter (\<lambda>y. y \<noteq> x) xs) = filter (\<lambda>k. P k \<and> k \<noteq> x) xs"
  by (induction xs) auto

lemma group_guests_props:
  "group_guests rows fg0 = Inr fg \<Longrightarrow> distinct (map fst fg0) \<Longrightarrow>
     distinct (map fst fg)
     \<and> map fst fg = map fst fg0
           @ filter (\<lambda>k. k \<notin> fst ` set fg0) (first_occurrences (map flight rows))
     \<and> (\<forall>k. members_of fg k = members_of fg0 k @ filter (\<lambda>g. flight g = k) rows)"
proof (induction rows arbitrary: fg0)
  case Nil
  then show ?case by simp
next
  case (Cons g rows)
  from Cons.prems(1) have rec: "group_guests rows (push_guest g fg0) = Inr fg"
    by (auto split: if_splits)
  have d1: "distinct (map fst (push_guest g fg0))"
    using Cons.prems(2) by (auto simp: push_guest_keys)
  note ih = Cons.IH [OF rec d1]
  have keys: "fst ` set (push_guest g fg0) = insert (flight g) (fst ` set fg0)"
    by (rule push_guest_key_set)
  have m: "members_of fg k = members_of fg0 k @ filter (\<lambda>x. flight x = k) (g # rows)" for k
  proof -
    have "members_of fg k = members_of (push_guest g fg0) k @ filter (\<lambda>x. flight x = k) rows"
      using ih by blast
    then show ?thesis
      by (simp add: push_guest_members [OF Cons.prems(2)])
  qed
  have k: "map fst fg = map fst fg0
      @ filter (\<lambda>k. k \<notin> fst ` set fg0) (first_occurrences (map flight (g # rows)))"
  proof (cases "flight g \<in> fst ` set fg0")
    case True
    have "filter (\<lambda>k. k \<notin> fst ` set fg0)
                 (filter (\<lambda>y. y \<noteq> flight g) (first_occurrences (map flight rows)))
               = filter (\<lambda>k. k \<notin> fst ` set fg0) (first_occurrences (map flight rows))"
      unfolding first_occurrences_filter using True by (intro filter_cong) auto
    moreover have "map fst fg = map fst fg0
        @ filter (\<lambda>k. k \<notin> fst ` set fg0) (first_occurrences (map flight rows))"
      using ih True keys by (simp add: push_guest_keys insert_absorb)
    ultimately show ?thesis using True by simp
  next
    case False
    have "filter (\<lambda>k. k \<notin> insert (flight g) (fst ` set fg0)) (first_occurrences (map flight rows))
          = filter (\<lambda>k. k \<notin> fst ` set fg0)
              (filter (\<lambda>y. y \<noteq> flight g) (first_occurrences (map flight rows)))"
      unfolding first_occurrences_filter by (intro filter_cong) auto
    moreover have "map fst fg = (map fst fg0 @ [flight g])
        @ filter (\<lambda>k. k \<notin> insert (flight g) (fst ` set fg0))
            (first_occurrences (map flight rows))"
      using ih False keys by (simp add: push_guest_keys)
    ultimately show ?thesis using False by simp
  qed
  from ih m k show ?case by blast
qed

lemma group_guests_eq:
  assumes "group_guests rows [] = Inr fg"
  shows "fg = groups_of_rows rows"
proof -
  have "distinct (map fst fg)
     \<and> map fst fg = map fst ([] :: groups)
           @ filter (\<lambda>k. k \<notin> fst ` set ([] :: groups)) (first_occurrences (map flight rows))
     \<and> (\<forall>k. members_of fg k = members_of [] k @ filter (\<lambda>g. flight g = k) rows)"
    by (rule group_guests_props [OF assms]) simp
  then have d: "distinct (map fst fg)"
    and k: "map fst fg = [] @ filter (\<lambda>k. True) (first_occurrences (map flight rows))"
    and m: "\<And>k. members_of fg k = members_of [] k @ filter (\<lambda>g. flight g = k) rows"
    by auto
  have m': "members_of fg k = filter (\<lambda>g. flight g = k) rows" for k
    using m [of k] by (simp add: members_of_def [of "[]"])
  have k': "map fst fg = first_occurrences (map flight rows)"
    using k by simp
  show ?thesis
    using assoc_list_eq [OF d] by (simp add: k' m' groups_of_rows_def)
qed

lemma group_guests_error:
  "(\<exists>e. group_guests rows fg0 = Inl e) \<longleftrightarrow> (\<exists>g \<in> set rows. flight g \<in> set object_prototype_keys)"
  by (induction rows arbitrary: fg0) auto

lemma assign_cars_type_error_iff:
  "(\<exists>e. assign_cars rows = Inl e) \<longleftrightarrow> (\<exists>g \<in> set rows. flight g \<in> set object_prototype_keys)"
  using group_guests_error [of rows "[]"]
  by (auto simp: assign_cars_def split: sum.splits)

lemma set_first_occurrences: "set (first_occurrences xs) = set xs"
  by (induction xs) auto

lemma group_loop_props:
  "map fst (group_loop grps c) = [c..<c + length (group_loop grps c)]
   \<and> concat (map snd (group_loop grps c)) = concat (map snd grps)
   \<and> (\<forall>car \<in> set (group_loop grps c).
         snd car \<noteq> [] \<and> length (snd car) \<le> capacity
         \<and> (\<exists>grp \<in> set grps. set (snd car) \<subseteq> set (snd grp)))"
proof (induction grps arbitrary: c)
  case Nil
  show ?case by simp
next
  case (Cons grp grps)
  obtain k flightGuests where grp: "grp = (k, flightGuests)" by (cases grp)
  obtain cars c' where ch: "chunk_loop flightGuests 0 c = (cars, c')"
    by (cases "chunk_loop flightGuests 0 c")
  from chunk_loop_props [OF ch]
  have p: "c' = c + length cars" "map fst cars = [c..<c + length cars]"
    "concat (map snd cars) = flightGuests"
    "\<forall>car \<in> set cars. snd car \<noteq> [] \<and> length (snd car) \<le> capacity"
    by simp_all
  have sub: "set (snd car) \<subseteq> set flightGuests" if "car \<in> set cars" for car
  proof -
    from that have "set (snd car) \<subseteq> set (concat (map snd cars))" by auto
    then show ?thesis by (simp only: p(3))
  qed
  have gl: "group_loop ((k, flightGuests) # grps) c = cars @ group_loop grps c'"
    by (simp add: ch)
  let ?rest = "group_loop grps c'"
  from Cons.IH [of c']
  have ih1: "map fst ?rest = [c'..<c' + length ?rest]"
    and ih2: "concat (map snd ?rest) = concat (map snd grps)"
    and ih3: "\<forall>car \<in> set ?rest. snd car \<noteq> [] \<and> length (snd car) \<le> capacity
         \<and> (\<exists>grp \<in> set grps. set (snd car) \<subseteq> set (snd grp))"
    by blast+
  have n: "[c..<c + length cars] @ [c + length cars..<c + length cars + length ?rest]
          = [c..<c + (length cars + length ?rest)]"
    by (metis add.assoc le_add1 upt_add_eq_append)
  have a: "map fst (group_loop ((k, flightGuests) # grps) c) = [c..<c + length (group_loop ((k, flightGuests) # grps) c)]"
    using n ih1 p(1,2) by (simp add: gl del: group_loop.simps)
  have b: "concat (map snd (group_loop ((k, flightGuests) # grps) c)) = concat (map snd ((k, flightGuests) # grps))"
    using ih2 p(3) by (simp add: gl del: group_loop.simps)
  have c: "snd car \<noteq> [] \<and> length (snd car) \<le> capacity
         \<and> (\<exists>grp' \<in> set ((k, flightGuests) # grps). set (snd car) \<subseteq> set (snd grp'))"
    if "car \<in> set (group_loop ((k, flightGuests) # grps) c)" for car
  proof (cases "car \<in> set cars")
    case True
    then show ?thesis using p(4) sub [OF True] by auto
  next
    case False
    with that have "car \<in> set ?rest" by (simp add: gl del: group_loop.simps)
    with ih3 show ?thesis by auto
  qed
  from a b c show ?case unfolding grp by blast
qed

lemma chunk_loop_single:
  assumes "gs \<noteq> []" and "length gs \<le> capacity"
  shows "chunk_loop gs 0 c = ([(c, gs)], c + 1)"
proof -
  have "chunk_loop gs capacity (Suc c) = ([], Suc c)"
    using assms(2) by (simp add: chunk_loop.simps [of gs capacity "Suc c"])
  moreover have "slice 0 (0 + capacity) gs = gs"
    using assms(2) by (simp add: slice_def)
  ultimately show ?thesis
    using assms(1) by (simp add: chunk_loop.simps [of gs 0 c])
qed

lemma group_loop_small_group:
  "(k, gs) \<in> set grps \<Longrightarrow> gs \<noteq> [] \<Longrightarrow> length gs \<le> capacity \<Longrightarrow>
   \<exists>n. (n, gs) \<in> set (group_loop grps c)"
proof (induction grps arbitrary: c)
  case Nil
  then show ?case by simp
next
  case (Cons grp grps)
  obtain k' flightGuests where grp: "grp = (k', flightGuests)" by (cases grp)
  obtain cars c' where ch: "chunk_loop flightGuests 0 c = (cars, c')"
    by (cases "chunk_loop flightGuests 0 c")
  have gl: "group_loop (grp # grps) c = cars @ group_loop grps c'"
    unfolding grp by (simp add: ch)
  show ?case
  proof (cases "(k, gs) = grp")
    case True
    then have "flightGuests = gs" by (simp add: grp)
    with ch chunk_loop_single [OF Cons.prems(2,3), of c] have "cars = [(c, gs)]" by simp
    then show ?thesis by (auto simp: gl simp del: group_loop.simps)
  next
    case False
    with Cons.prems(1) have "(k, gs) \<in> set grps" by simp
    from Cons.IH [OF this Cons.prems(2,3), of c'] show ?thesis
      by (auto simp: gl simp del: group_loop.simps)
  qed
qed

lemma for_in_order_mset: "mset (for_in_order obj) = mset obj"
  unfolding for_in_order_def by (simp add: mset_filter)

lemma for_in_order_set: "set (for_in_order obj) = set obj"
  by (metis for_in_order_mset set_mset_mset)

lemma assign_cars_groups:
  assumes "assign_cars rows = Inr cars"
  shows "group_guests rows [] = Inr (groups_of_rows rows)"
    and "cars = group_loop (for_in_order (groups_of_rows rows)) 1"
proof -
  from assms obtain fg where fg: "group_guests rows [] = Inr fg"
    and cars: "cars = group_loop (for_in_order fg) 1"
    by (auto simp: assign_cars_def split: sum.splits)
  from group_guests_eq [OF fg] fg cars
  show "group_guests rows [] = Inr (groups_of_rows rows)"
    and "cars = group_loop (for_in_order (groups_of_rows rows)) 1"
    by simp_all
qed

lemma for_in_order_single: "for_in_order [p] = [p]"
  by (simp add: for_in_order_def)

lemma chunk_loop_six:
  "chunk_loop [a, b, c, d, e, f] 0 n = ([(n, [a, b, c, d, e]), (Suc n, [f])], Suc (Suc n))"
  by (simp add: chunk_loop.simps [of _ 0] chunk_loop.simps [of _ 5] chunk_loop.simps [of _ 10]
      capacity_def slice_def)

lemma assign_cars_six:
  assumes "k \<notin> set object_prototype_keys"
    and "flight a = k" "flight b = k" "flight c = k" "flight d = k" "flight e = k" "flight f = k"
  shows "assign_cars [a, b, c, d, e, f] = Inr [(1, [a, b, c, d, e]), (2, [f])]"
proof -
  have "group_guests [a, b, c, d, e, f] [] = Inr [(k, [a, b, c, d, e, f])]"
    using assms by simp
  then show ?thesis
    by (simp add: assign_cars_def for_in_order_single chunk_loop_six)
qed

lemma xy100_ok: "''XY100'' \<notin> set object_prototype_keys"
  by (simp add: object_prototype_keys_def)

subsection \<open>Numbering and order\<close>

text \<open>
  Against C4 as stated. Six guests on one flight with one ETA, created in the order of
  their ids. The rows in
  creation order and the rows with the last guest first are both answers to the query
  (the same rows, ordered by flight and ETA). The assignment puts guests 1 to 5 in car 1
  and guest 6 in car 2 on the first, and guests 6, 1, 2, 3, 4 in car 1 and guest 5 in car 2
  on the second: the grouping follows the order of the rows, not the order of creation.
  And of two guests on the flights \<open>01\<close> and \<open>5\<close>, which the query returns
  in this order, the guest on flight \<open>5\<close> gets car 1: \<open>5\<close> is an array
  index and is visited first.
\<close>

theorem assign_cars_order_counterexample:
  "query_result (guests_on_xy100 [1, 2, 3, 4, 5, 6]) (guests_on_xy100 [1, 2, 3, 4, 5, 6])
   \<and> query_result (guests_on_xy100 [1, 2, 3, 4, 5, 6]) (guests_on_xy100 [6, 1, 2, 3, 4, 5])
   \<and> assign_cars (guests_on_xy100 [1, 2, 3, 4, 5, 6])
       = Inr [(1, guests_on_xy100 [1, 2, 3, 4, 5]), (2, guests_on_xy100 [6])]
   \<and> assign_cars (guests_on_xy100 [6, 1, 2, 3, 4, 5])
       = Inr [(1, guests_on_xy100 [6, 1, 2, 3, 4]), (2, guests_on_xy100 [5])]
   \<and> query_result [sample_guest 1 ''01'' ''BA'' 1000, sample_guest 2 ''5'' ''BA'' 1000]
         [sample_guest 1 ''01'' ''BA'' 1000, sample_guest 2 ''5'' ''BA'' 1000]
   \<and> assign_cars [sample_guest 1 ''01'' ''BA'' 1000, sample_guest 2 ''5'' ''BA'' 1000]
       = Inr [(1, [sample_guest 2 ''5'' ''BA'' 1000]), (2, [sample_guest 1 ''01'' ''BA'' 1000])]"
proof -
  have s: "sorted_wrt flight_eta_le (guests_on_xy100 [1, 2, 3, 4, 5, 6])"
    "sorted_wrt flight_eta_le (guests_on_xy100 [6, 1, 2, 3, 4, 5])"
    by (simp_all add: guests_on_xy100_def sample_guest_def flight_eta_le_def eta_le_def)
  have m: "mset (guests_on_xy100 [6, 1, 2, 3, 4, 5]) = mset (guests_on_xy100 [1, 2, 3, 4, 5, 6])"
    by (simp add: guests_on_xy100_def)
  have a: "assign_cars (guests_on_xy100 [1, 2, 3, 4, 5, 6])
       = Inr [(1, guests_on_xy100 [1, 2, 3, 4, 5]), (2, guests_on_xy100 [6])]"
    unfolding guests_on_xy100_def list.map
    by (rule assign_cars_six [OF xy100_ok]) (simp_all add: sample_guest_def)
  have b: "assign_cars (guests_on_xy100 [6, 1, 2, 3, 4, 5])
       = Inr [(1, guests_on_xy100 [6, 1, 2, 3, 4]), (2, guests_on_xy100 [5])]"
    unfolding guests_on_xy100_def list.map
    by (rule assign_cars_six [OF xy100_ok]) (simp_all add: sample_guest_def)
  have q: "query_result [sample_guest 1 ''01'' ''BA'' 1000, sample_guest 2 ''5'' ''BA'' 1000]
         [sample_guest 1 ''01'' ''BA'' 1000, sample_guest 2 ''5'' ''BA'' 1000]"
    by (simp add: query_result_def flight_eta_le_def sample_guest_def)
  have c: "assign_cars [sample_guest 1 ''01'' ''BA'' 1000, sample_guest 2 ''5'' ''BA'' 1000]
       = Inr [(1, [sample_guest 2 ''5'' ''BA'' 1000]), (2, [sample_guest 1 ''01'' ''BA'' 1000])]"
    by (simp add: assign_cars_def sample_guest_def object_prototype_keys_def for_in_order_def
        array_index_def digit_def index_key_def chunk_loop.simps [of _ 0]
        chunk_loop.simps [of _ 5] capacity_def slice_def)
  show ?thesis
    using s m a b q c by (simp add: query_result_def)
qed

text \<open>
  C4, as the code has it. When the assignment goes through on the rows of the query, the
  cars are numbered 1, 2, 3, ... in the order the loops produce them; \<open>flightGroups\<close>
  holds the flights in the order of their first row, each with its rows in the order of the
  rows; and the passengers of the cars, read car by car, are the groups read in the order
  \<open>for ... in\<close> visits them (flights that are array indices first, in ascending
  numeric order, then the other flights in the order of their first row).
\<close>

theorem assign_cars_numbering:
  assumes "assign_cars rows = Inr cars"
  shows "map fst cars = [1..<Suc (length cars)]
       \<and> group_guests rows [] = Inr (groups_of_rows rows)
       \<and> concat (map snd cars) = concat (map snd (for_in_order (groups_of_rows rows)))"
  using assign_cars_groups [OF assms]
    group_loop_props [of "for_in_order (groups_of_rows rows)" 1]
  by simp

theorem assign_cars_numbering_witness:
  "assign_cars [sample_guest 1 ''01'' ''BA'' 1000, sample_guest 2 ''5'' ''BA'' 1000]
     = Inr [(1, [sample_guest 2 ''5'' ''BA'' 1000]), (2, [sample_guest 1 ''01'' ''BA'' 1000])]
   \<and> concat (map snd [(1 :: nat, [sample_guest 2 ''5'' ''BA'' 1000]),
                          (2, [sample_guest 1 ''01'' ''BA'' 1000])])
     = concat (map snd (for_in_order (groups_of_rows
         [sample_guest 1 ''01'' ''BA'' 1000, sample_guest 2 ''5'' ''BA'' 1000])))"
proof -
  have h: "assign_cars [sample_guest 1 ''01'' ''BA'' 1000, sample_guest 2 ''5'' ''BA'' 1000]
     = Inr [(1, [sample_guest 2 ''5'' ''BA'' 1000]), (2, [sample_guest 1 ''01'' ''BA'' 1000])]"
    by (simp add: assign_cars_def sample_guest_def object_prototype_keys_def for_in_order_def
        array_index_def digit_def index_key_def chunk_loop.simps [of _ 0]
        chunk_loop.simps [of _ 5] capacity_def slice_def)
  from assign_cars_numbering [OF h] h show ?thesis by blast
qed


subsection \<open>Capacity and chunks\<close>

lemma groups_of_rows_same_flight:
  "grp \<in> set (groups_of_rows rows) \<Longrightarrow> g \<in> set (snd grp) \<Longrightarrow> flight g = fst grp"
  by (auto simp: groups_of_rows_def)

lemma chunk_loop_chunks:
  "chunk_loop gs i c = (cars, c') \<Longrightarrow> map snd cars = spec_chunks capacity (drop i gs)"
proof (induction gs i c arbitrary: cars c' rule: chunk_loop.induct)
  case (1 flightGuests i carId)
  show ?case
  proof (cases "i < length flightGuests")
    case False
    with "1.prems" show ?thesis
      by (simp add: chunk_loop.simps [of flightGuests i carId] spec_chunks.simps [of _ "[]"])
  next
    case True
    obtain cs n where rec: "chunk_loop flightGuests (i + capacity) (carId + 1) = (cs, n)"
      by (cases "chunk_loop flightGuests (i + capacity) (carId + 1)")
    from "1.prems" True rec
    have cars: "cars = (carId, slice i (i + capacity) flightGuests) # cs"
      by (simp add: chunk_loop.simps [of flightGuests i carId])
    from "1.IH" [OF True refl rec]
    have ih: "map snd cs = spec_chunks capacity (drop (i + capacity) flightGuests)" .
    have ne: "drop i flightGuests \<noteq> []" using True by simp
    have "spec_chunks capacity (drop i flightGuests)
            = take capacity (drop i flightGuests)
              # spec_chunks capacity (drop capacity (drop i flightGuests))"
      using ne by (subst spec_chunks.simps) (simp add: capacity_def)
    also have "drop capacity (drop i flightGuests) = drop (i + capacity) flightGuests"
      by (simp add: add.commute)
    finally show ?thesis
      using ih cars by (simp add: slice_take_drop)
  qed
qed

lemma group_loop_chunks:
  "map snd (group_loop grps c) = concat (map (\<lambda>grp. spec_chunks capacity (snd grp)) grps)"
proof (induction grps arbitrary: c)
  case Nil
  show ?case by simp
next
  case (Cons grp grps)
  obtain k flightGuests where grp: "grp = (k, flightGuests)" by (cases grp)
  obtain cars c' where ch: "chunk_loop flightGuests 0 c = (cars, c')"
    by (cases "chunk_loop flightGuests 0 c")
  from chunk_loop_chunks [OF ch] have "map snd cars = spec_chunks capacity flightGuests"
    by simp
  then show ?case
    using Cons.IH [of c'] by (simp add: grp ch)
qed

text \<open>
  Against C5 as stated. The handler reads no capacity: where a capacity of 3 is configured,
  four guests on one flight still ride in one car. And six guests on the flight
  \<open>constructor\<close> get no car: the handler throws.
\<close>

theorem assign_cars_capacity_counterexample:
  "assign_cars (guests_on ''XY100'' [1, 2, 3, 4]) = Inr [(1, guests_on ''XY100'' [1, 2, 3, 4])]
   \<and> \<not> length (guests_on ''XY100'' [1, 2, 3, 4]) \<le> 3
   \<and> assign_cars (guests_on ''constructor'' [1, 2, 3, 4, 5, 6]) = Inl TypeError"
  by (simp add: assign_cars_def guests_on_def sample_guest_def object_prototype_keys_def
      for_in_order_def array_index_def digit_def chunk_loop.simps [of _ 0]
      chunk_loop.simps [of _ 5] capacity_def slice_def)

text \<open>
  C5, as the code has it. The handler takes no capacity: the size of a chunk is the
  constant 5. When the assignment goes through, every car has at least one and at most 5
  passengers, all on one flight; the cars have the numbers 1, 2, 3, ..., each car its own;
  and the cars, in this order, are the consecutive chunks of 5 of each group, the groups
  taken in the order they are visited and each group in its own order. Six guests on one
  flight that names no property of \<open>Object.prototype\<close> give two cars: car 1 with
  the first five and car 2 with the sixth.
\<close>

theorem assign_cars_capacity:
  assumes "assign_cars rows = Inr cars"
  shows "capacity = 5
       \<and> (\<forall>car \<in> set cars. snd car \<noteq> [] \<and> length (snd car) \<le> 5
             \<and> (\<forall>g \<in> set (snd car). flight g = flight (hd (snd car))))
       \<and> map fst cars = [1..<Suc (length cars)]
       \<and> map snd cars
           = concat (map (\<lambda>grp. spec_chunks 5 (snd grp)) (for_in_order (groups_of_rows rows)))
       \<and> (\<forall>k a b c d e f.
             k \<notin> set object_prototype_keys
             \<and> flight a = k \<and> flight b = k \<and> flight c = k
             \<and> flight d = k \<and> flight e = k \<and> flight f = k \<longrightarrow>
             assign_cars [a, b, c, d, e, f] = Inr [(1, [a, b, c, d, e]), (2, [f])])"
proof -
  note g = assign_cars_groups [OF assms]
  from group_loop_props [of "for_in_order (groups_of_rows rows)" 1]
  have p0: "map fst cars = [1..<Suc (length cars)]"
    and p2: "\<forall>car \<in> set cars.
         snd car \<noteq> [] \<and> length (snd car) \<le> capacity
         \<and> (\<exists>grp \<in> set (for_in_order (groups_of_rows rows)). set (snd car) \<subseteq> set (snd grp))"
    unfolding g(2) by simp_all
  have p1: "map snd cars
      = concat (map (\<lambda>grp. spec_chunks 5 (snd grp)) (for_in_order (groups_of_rows rows)))"
    unfolding g(2) using group_loop_chunks [of "for_in_order (groups_of_rows rows)" 1]
    by (simp add: capacity_def)
  have one_flight: "flight x = flight (hd (snd car))"
    if car: "car \<in> set cars" and x: "x \<in> set (snd car)" for car x
  proof -
    from p2 car obtain grp where grp: "grp \<in> set (for_in_order (groups_of_rows rows))"
      and sub: "set (snd car) \<subseteq> set (snd grp)" and ne: "snd car \<noteq> []"
      by blast
    from grp have grp': "grp \<in> set (groups_of_rows rows)" by (simp only: for_in_order_set)
    from ne have "hd (snd car) \<in> set (snd car)" by simp
    with sub have h: "hd (snd car) \<in> set (snd grp)" by blast
    from sub x have x': "x \<in> set (snd grp)" by blast
    show ?thesis
      using groups_of_rows_same_flight [OF grp' h] groups_of_rows_same_flight [OF grp' x']
      by simp
  qed
  have c5: "capacity = 5" by (simp add: capacity_def)
  moreover have "\<forall>car \<in> set cars. snd car \<noteq> [] \<and> length (snd car) \<le> 5
             \<and> (\<forall>g \<in> set (snd car). flight g = flight (hd (snd car)))"
    using p2 one_flight unfolding c5 by blast
  moreover have "assign_cars [a, b, c, d, e, f] = Inr [(1, [a, b, c, d, e]), (2, [f])]"
    if "k \<notin> set object_prototype_keys" "flight a = k" "flight b = k" "flight c = k"
      "flight d = k" "flight e = k" "flight f = k" for k a b c d e f
    using that by (rule assign_cars_six)
  ultimately show ?thesis using p0 p1 by blast
qed

theorem assign_cars_capacity_witness:
  "assign_cars (guests_on ''XY100'' [1, 2, 3, 4, 5, 6])
     = Inr [(1, guests_on ''XY100'' [1, 2, 3, 4, 5]), (2, guests_on ''XY100'' [6])]
   \<and> map (length \<circ> snd)
         [(1 :: nat, guests_on ''XY100'' [1, 2, 3, 4, 5]), (2, guests_on ''XY100'' [6])]
     = [5, 1]
   \<and> map fst [(1 :: nat, guests_on ''XY100'' [1, 2, 3, 4, 5]), (2, guests_on ''XY100'' [6])]
     = [1, 2]"
proof -
  have h: "assign_cars (guests_on ''XY100'' [1, 2, 3, 4, 5, 6])
     = Inr [(1, guests_on ''XY100'' [1, 2, 3, 4, 5]), (2, guests_on ''XY100'' [6])]"
    unfolding guests_on_def list.map
    by (rule assign_cars_six [OF xy100_ok]) (simp_all add: sample_guest_def)
  from assign_cars_capacity [OF h] h show ?thesis
    by (simp add: guests_on_def)
qed

subsection \<open>Grouping by the flight column\<close>

text \<open>
  C10 at an input where the code departs from it. Two guests on the flight
  \<open>toString\<close>, one with the airline BA and one with LH: \<open>flightGroups\<close> is a
  plain object, \<open>flightGroups['toString']\<close> reads the method it inherits, no group is
  made for the flight, and \<open>push\<close> on the method throws. No guest is put in a group
  or in a car.
\<close>

theorem assign_cars_inherited_key:
  "flight (sample_guest 1 ''toString'' ''BA'' 1000) = flight (sample_guest 2 ''toString'' ''LH'' 1000)
   \<and> airline (sample_guest 1 ''toString'' ''BA'' 1000)
       \<noteq> airline (sample_guest 2 ''toString'' ''LH'' 1000)
   \<and> group_guests [sample_guest 1 ''toString'' ''BA'' 1000,
                    sample_guest 2 ''toString'' ''LH'' 1000] [] = Inl TypeError
   \<and> assign_cars [sample_guest 1 ''toString'' ''BA'' 1000,
                   sample_guest 2 ''toString'' ''LH'' 1000] = Inl TypeError"
  by (simp add: assign_cars_def sample_guest_def object_prototype_keys_def)

text \<open>
  On rows of which no flight names a property of \<open>Object.prototype\<close> the assignment
  goes through and the grouping keys on the flight alone: the group of a flight holds
  exactly the rows with that flight, in row order, whatever their airlines; the guests of
  one car are on one flight; and two rows with the same flight, of which there are at most
  5, ride in the same car.
\<close>

theorem assign_cars_keys_on_flight:
  assumes "\<forall>g \<in> set rows. flight g \<notin> set object_prototype_keys"
  shows "\<exists>fg cars. group_guests rows [] = Inr fg \<and> assign_cars rows = Inr cars
       \<and> map fst fg = first_occurrences (map flight rows)
       \<and> (\<forall>k \<in> set (map flight rows). (k, filter (\<lambda>x. flight x = k) rows) \<in> set fg)
       \<and> (\<forall>car \<in> set cars. \<forall>g \<in> set (snd car). \<forall>h \<in> set (snd car). flight g = flight h)
       \<and> (\<forall>g \<in> set rows. \<forall>h \<in> set rows.
             flight g = flight h \<and> length (filter (\<lambda>x. flight x = flight g) rows) \<le> 5 \<longrightarrow>
             (\<exists>car \<in> set cars. g \<in> set (snd car) \<and> h \<in> set (snd car)))"
proof -
  from assms assign_cars_type_error_iff [of rows]
  obtain cars where cars: "assign_cars rows = Inr cars"
    by (cases "assign_cars rows") auto
  note gr = assign_cars_groups [OF cars]
  have keys: "map fst (groups_of_rows rows) = first_occurrences (map flight rows)"
    by (simp add: groups_of_rows_def comp_def)
  have grp: "(k, filter (\<lambda>x. flight x = k) rows) \<in> set (groups_of_rows rows)"
    if "k \<in> set (map flight rows)" for k
    using that by (simp add: groups_of_rows_def set_first_occurrences)
  from group_loop_props [of "for_in_order (groups_of_rows rows)" 1]
  have p2: "\<forall>car \<in> set cars.
         snd car \<noteq> [] \<and> length (snd car) \<le> capacity
         \<and> (\<exists>grp \<in> set (for_in_order (groups_of_rows rows)). set (snd car) \<subseteq> set (snd grp))"
    unfolding gr(2) by simp
  have same: "flight g = flight h"
    if "car \<in> set cars" "g \<in> set (snd car)" "h \<in> set (snd car)" for car g h
  proof -
    from p2 that(1) obtain grp where g1: "grp \<in> set (for_in_order (groups_of_rows rows))"
      and sub: "set (snd car) \<subseteq> set (snd grp)"
      by blast
    from g1 have g2: "grp \<in> set (groups_of_rows rows)" by (simp only: for_in_order_set)
    from sub that(2,3) have "g \<in> set (snd grp)" "h \<in> set (snd grp)" by blast+
    then show ?thesis
      using groups_of_rows_same_flight [OF g2] by simp
  qed
  have ride: "\<exists>car \<in> set cars. g \<in> set (snd car) \<and> h \<in> set (snd car)"
    if g: "g \<in> set rows" and h: "h \<in> set rows" and f: "flight g = flight h"
      and small: "length (filter (\<lambda>x. flight x = flight g) rows) \<le> 5" for g h
  proof -
    let ?m = "filter (\<lambda>x. flight x = flight g) rows"
    have mem: "g \<in> set ?m" "h \<in> set ?m" using g h f by simp_all
    have "(flight g, ?m) \<in> set (for_in_order (groups_of_rows rows))"
      using grp [of "flight g"] g by (simp add: for_in_order_set)
    moreover have "?m \<noteq> []" using mem(1) by (metis empty_iff empty_set)
    moreover have "length ?m \<le> capacity" using small by (simp add: capacity_def)
    ultimately obtain n where "(n, ?m) \<in> set cars"
      using group_loop_small_group gr(2) by blast
    with mem show ?thesis by force
  qed
  show ?thesis
    using gr(1) cars keys grp same ride by blast
qed

theorem assign_cars_keys_on_flight_witness:
  "airline (sample_guest 1 ''100'' ''BA'' 1000) \<noteq> airline (sample_guest 2 ''100'' ''LH'' 1000)
   \<and> assign_cars [sample_guest 1 ''100'' ''BA'' 1000, sample_guest 2 ''100'' ''LH'' 1000,
                   sample_guest 3 ''200'' ''BA'' 1000]
     = Inr [(1, [sample_guest 1 ''100'' ''BA'' 1000, sample_guest 2 ''100'' ''LH'' 1000]),
            (2, [sample_guest 3 ''200'' ''BA'' 1000])]"
proof -
  let ?rows = "[sample_guest 1 ''100'' ''BA'' 1000, sample_guest 2 ''100'' ''LH'' 1000,
                sample_guest 3 ''200'' ''BA'' 1000]"
  have h: "\<forall>g \<in> set ?rows. flight g \<notin> set object_prototype_keys"
    by (simp add: sample_guest_def object_prototype_keys_def)
  from assign_cars_keys_on_flight [OF h] obtain cars where "assign_cars ?rows = Inr cars"
    by blast
  moreover have "assign_cars ?rows
     = Inr [(1, [sample_guest 1 ''100'' ''BA'' 1000, sample_guest 2 ''100'' ''LH'' 1000]),
            (2, [sample_guest 3 ''200'' ''BA'' 1000])]"
    by (simp add: assign_cars_def sample_guest_def object_prototype_keys_def for_in_order_def
        array_index_def digit_def index_key_def chunk_loop.simps [of _ 0]
        chunk_loop.simps [of _ 5] capacity_def slice_def)
  ultimately show ?thesis by (simp add: sample_guest_def)
qed

subsection \<open>Flights that name a property of Object.prototype\<close>

text \<open>
  The assignment throws, before any car is assigned, exactly when some row has a flight that
  names a property of \<open>Object.prototype\<close>.
\<close>

theorem assign_cars_type_error:
  "(\<exists>e. assign_cars rows = Inl e) \<longleftrightarrow> (\<exists>g \<in> set rows. flight g \<in> set object_prototype_keys)"
  by (rule assign_cars_type_error_iff)

theorem assign_cars_type_error_witness:
  "assign_cars [sample_guest 1 ''100'' ''BA'' 1000, sample_guest 2 ''toString'' ''BA'' 1000]
     = Inl TypeError"
  using assign_cars_type_error
    [of "[sample_guest 1 ''100'' ''BA'' 1000, sample_guest 2 ''toString'' ''BA'' 1000]"]
  by (simp add: assign_cars_def sample_guest_def object_prototype_keys_def)

end
